theory Spec2Isabelle
  imports Main "HOL-Library.AList"
begin

section \<open>Strings\<close>

text \<open>
  A JavaScript string is modelled by its UTF-8 encoding, a \<^typ>\<open>string\<close> of bytes. The
  operations below are the ones \<^verbatim>\<open>index.ts\<close> calls: \<^verbatim>\<open>startsWith\<close>, \<^verbatim>\<open>includes\<close>, \<^verbatim>\<open>replace\<close>
  with a string pattern (which rewrites the first occurrence only), \<^verbatim>\<open>join\<close>, \<^verbatim>\<open>trim\<close> and
  \<^verbatim>\<open>toLowerCase\<close>. On well-formed text, prefixes and occurrences of the encodings are those
  of the strings.
\<close>

definition startsWith :: "string \<Rightarrow> string \<Rightarrow> bool" where
  "startsWith s p = (take (length p) s = p)"

fun includes_str :: "string \<Rightarrow> string \<Rightarrow> bool" where
  "includes_str [] p = (p = [])"
| "includes_str (c # cs) p = (startsWith (c # cs) p \<or> includes_str cs p)"

fun replaceFirst :: "string \<Rightarrow> string \<Rightarrow> string \<Rightarrow> string" where
  "replaceFirst [] pat rep = (if pat = [] then rep else [])"
| "replaceFirst (c # cs) pat rep =
     (if startsWith (c # cs) pat then rep @ drop (length pat) (c # cs)
      else c # replaceFirst cs pat rep)"

fun join_str :: "string \<Rightarrow> string list \<Rightarrow> string" where
  "join_str sep [] = []"
| "join_str sep [x] = x"
| "join_str sep (x # y # ys) = x @ sep @ join_str sep (y # ys)"

text \<open>
  The white space of \<^verbatim>\<open>trim\<close> and of \<^verbatim>\<open>\s\<close> in a regular expression: the characters
  U+0009 to U+000D, U+0020, U+00A0, U+1680, U+2000 to U+200A, U+2028, U+2029, U+202F,
  U+205F, U+3000 and U+FEFF, each in its encoding.
\<close>

definition whiteSpace :: "string list" where
  "whiteSpace =
     [[CHR 0x09], [CHR 0x0A], [CHR 0x0B], [CHR 0x0C], [CHR 0x0D], [CHR 0x20],
      [CHR 0xC2, CHR 0xA0], [CHR 0xE1, CHR 0x9A, CHR 0x80],
      [CHR 0xE2, CHR 0x80, CHR 0x80], [CHR 0xE2, CHR 0x80, CHR 0x81],
      [CHR 0xE2, CHR 0x80, CHR 0x82], [CHR 0xE2, CHR 0x80, CHR 0x83],
      [CHR 0xE2, CHR 0x80, CHR 0x84], [CHR 0xE2, CHR 0x80, CHR 0x85],
      [CHR 0xE2, CHR 0x80, CHR 0x86], [CHR 0xE2, CHR 0x80, CHR 0x87],
      [CHR 0xE2, CHR 0x80, CHR 0x88], [CHR 0xE2, CHR 0x80, CHR 0x89],
      [CHR 0xE2, CHR 0x80, CHR 0x8A], [CHR 0xE2, CHR 0x80, CHR 0xA8],
      [CHR 0xE2, CHR 0x80, CHR 0xA9], [CHR 0xE2, CHR 0x80, CHR 0xAF],
      [CHR 0xE2, CHR 0x81, CHR 0x9F], [CHR 0xE3, CHR 0x80, CHR 0x80],
      [CHR 0xEF, CHR 0xBB, CHR 0xBF]]"

text \<open>
  \<open>skipSpace seqs s\<close> removes from the front of \<open>s\<close> every leading occurrence of one of
  the sequences \<open>seqs\<close>; \<^verbatim>\<open>trim\<close> does so at both ends.
\<close>

function skipSpace :: "string list \<Rightarrow> string \<Rightarrow> string" where
  "skipSpace seqs s =
     (case find (\<lambda>w. w \<noteq> [] \<and> startsWith s w) seqs of
        None \<Rightarrow> s
      | Some w \<Rightarrow> skipSpace seqs (drop (length w) s))"
  by pat_completeness auto
termination
proof (relation "measure (\<lambda>(seqs, s). length s)")
  show "wf (measure (\<lambda>(seqs, s). length s))" by simp
next
  fix seqs :: "string list" and s w :: string
  assume "find (\<lambda>w. w \<noteq> [] \<and> startsWith s w) seqs = Some w"
  then have "w \<noteq> []" and "startsWith s w"
    by (auto simp: find_Some_iff)
  then have "length (take (length w) s) = length w"
    by (simp add: startsWith_def)
  then have "length w \<le> length s"
    by (simp add: min_def split: if_splits)
  moreover from \<open>w \<noteq> []\<close> have "0 < length w"
    by simp
  ultimately have "length s - length w < length s"
    by arith
  then show "((seqs, drop (length w) s), (seqs, s)) \<in> measure (\<lambda>(seqs, s). length s)"
    by simp
qed

declare skipSpace.simps [simp del]

definition trim :: "string \<Rightarrow> string" where
  "trim s = rev (skipSpace (map rev whiteSpace) (rev (skipSpace whiteSpace s)))"

section \<open>Node's path.resolve on POSIX\<close>

text \<open>
  \<^verbatim>\<open>path.resolve\<close> belongs to Node, not to this repository. The model follows its POSIX
  implementation: the arguments are taken from right to left, empty ones skipped, until
  one starts with a slash; the working directory is the last resort. The result is
  normalised segment by segment: empty and \<^verbatim>\<open>.\<close> segments vanish, \<^verbatim>\<open>..\<close> removes the segment
  before it (and is dropped at the root of an absolute path).
\<close>

fun splitSlash :: "string \<Rightarrow> string list" where
  "splitSlash [] = [[]]"
| "splitSlash (c # cs) =
     (if c = CHR ''/'' then [] # splitSlash cs
      else (case splitSlash cs of [] \<Rightarrow> [[c]] | seg # segs \<Rightarrow> (c # seg) # segs))"

definition normStep :: "bool \<Rightarrow> string list \<Rightarrow> string \<Rightarrow> string list" where
  "normStep allowAboveRoot res seg =
     (if seg = [] \<or> seg = ''.'' then res
      else if seg = ''..'' then
        (if res \<noteq> [] \<and> last res \<noteq> ''..'' then butlast res
         else if allowAboveRoot then res @ [''..''] else res)
      else res @ [seg])"

definition normalizeString :: "string \<Rightarrow> bool \<Rightarrow> string" where
  "normalizeString path allowAboveRoot =
     join_str ''/'' (foldl (normStep allowAboveRoot) [] (splitSlash path))"

fun resolveLoop :: "string list \<Rightarrow> string \<Rightarrow> string \<times> bool" where
  "resolveLoop [] resolvedPath = (resolvedPath, False)"
| "resolveLoop (p # ps) resolvedPath =
     (if p = [] then resolveLoop ps resolvedPath
      else if hd p = CHR ''/'' then (p @ ''/'' @ resolvedPath, True)
      else resolveLoop ps (p @ ''/'' @ resolvedPath))"

definition path_resolve :: "string \<Rightarrow> string \<Rightarrow> string \<Rightarrow> string" where
  "path_resolve cwd a b =
     (case resolveLoop [b, a, cwd] [] of
        (resolvedPath, resolvedAbsolute) \<Rightarrow>
          (if resolvedAbsolute then CHR ''/'' # normalizeString resolvedPath False
           else (let n = normalizeString resolvedPath True in if n = [] then ''.'' else n)))"

section \<open>Options\<close>

datatype jsValue = JNum int | JBool bool | JStr string

record options =
  aliases :: "(string \<times> string) list"
  extensions :: "string list"
  prettierOptions :: "(string \<times> jsValue) list"

record userOptions =
  userAliases :: "(string \<times> string) list option"
  userExtensions :: "string list option"
  userPrettierOptions :: "(string \<times> jsValue) list option"

text \<open>
  An object with string keys is the list of its own properties in the order of their
  creation (keys distinct). \<^verbatim>\<open>Object.entries\<close> and the spread enumerate the array indices
  first, in ascending numeric order, and then the other keys in the order of creation. An
  array index is the decimal numeral, without leading zeros, of a number below
  \<open>2\<^sup>3\<^sup>2 - 1\<close>.
\<close>

definition isDigit :: "char \<Rightarrow> bool" where
  "isDigit c = (48 \<le> (of_char c :: nat) \<and> (of_char c :: nat) \<le> 57)"

definition digitsValue :: "string \<Rightarrow> int" where
  "digitsValue s = foldl (\<lambda>n c. 10 * n + ((of_char c :: int) - 48)) 0 s"

definition isArrayIndex :: "string \<Rightarrow> bool" where
  "isArrayIndex s =
     (s \<noteq> [] \<and> list_all isDigit s \<and> (s = ''0'' \<or> hd s \<noteq> CHR ''0'') \<and>
      digitsValue s < 4294967295)"

definition objectEntries :: "(string \<times> 'v) list \<Rightarrow> (string \<times> 'v) list" where
  "objectEntries props =
     sort_key (\<lambda>p. digitsValue (fst p)) (filter (\<lambda>p. isArrayIndex (fst p)) props)
     @ filter (\<lambda>p. \<not> isArrayIndex (fst p)) props"

text \<open>
  The spread \<^verbatim>\<open>{...a, ...b}\<close> creates the properties of \<^verbatim>\<open>a\<close> and then those of \<^verbatim>\<open>b\<close>, each
  in its enumeration order; a key that is there already keeps its place and takes the new
  value.
\<close>

definition spread :: "(string \<times> 'v) list \<Rightarrow> (string \<times> 'v) list \<Rightarrow> (string \<times> 'v) list" where
  "spread a b =
     foldl (\<lambda>acc (k, v). AList.update k v acc) [] (objectEntries a @ objectEntries b)"

text \<open>
  \<^verbatim>\<open>importMap\<close> is a plain object whose values are strings. Reading a property that the
  object does not own finds the properties of \<^verbatim>\<open>Object.prototype\<close>, which are functions, or
  for \<^verbatim>\<open>__proto__\<close> the prototype itself; and an assignment to \<^verbatim>\<open>__proto__\<close> of a string
  changes nothing.
\<close>

datatype propertyValue = Undefined | StringValue string | InheritedValue

definition objectPrototypeNames :: "string list" where
  "objectPrototypeNames =
     [''constructor'', ''__defineGetter__'', ''__defineSetter__'', ''hasOwnProperty'',
      ''__lookupGetter__'', ''__lookupSetter__'', ''isPrototypeOf'', ''propertyIsEnumerable'',
      ''toString'', ''valueOf'', ''__proto__'', ''toLocaleString'']"

definition getProperty :: "(string \<rightharpoonup> string) \<Rightarrow> string \<Rightarrow> propertyValue" where
  "getProperty obj name =
     (if name = ''__proto__'' then InheritedValue
      else (case obj name of
              Some v \<Rightarrow> StringValue v
            | None \<Rightarrow> if name \<in> set objectPrototypeNames then InheritedValue else Undefined))"

definition setProperty :: "(string \<rightharpoonup> string) \<Rightarrow> string \<Rightarrow> string \<Rightarrow> (string \<rightharpoonup> string)" where
  "setProperty obj name v = (if name = ''__proto__'' then obj else obj(name \<mapsto> v))"

definition defaultOptions :: "string \<Rightarrow> options" where
  "defaultOptions cwd =
     \<lparr> aliases = [(''@code'', path_resolve cwd cwd ''src/code-snippets'')],
       extensions = [''.ts'', ''.tsx'', ''.js'', ''.jsx'',
                     ''/index.ts'', ''/index.tsx'', ''/index.js'', ''/index.jsx''],
       prettierOptions =
         [(''printWidth'', JNum 80), (''tabWidth'', JNum 2), (''useTabs'', JBool False),
          (''semi'', JBool True), (''singleQuote'', JBool True),
          (''trailingComma'', JStr ''es5''), (''bracketSpacing'', JBool True),
          (''arrowParens'', JStr ''avoid'')] \<rparr>"

definition mergedOptions :: "string \<Rightarrow> userOptions \<Rightarrow> options" where
  "mergedOptions cwd opts =
     \<lparr> aliases = spread (aliases (defaultOptions cwd))
                   (case userAliases opts of None \<Rightarrow> [] | Some a \<Rightarrow> a),
       extensions = extensions (defaultOptions cwd)
                   @ (case userExtensions opts of None \<Rightarrow> [] | Some e \<Rightarrow> e),
       prettierOptions = spread (prettierOptions (defaultOptions cwd))
                   (case userPrettierOptions opts of None \<Rightarrow> [] | Some p \<Rightarrow> p) \<rparr>"

section \<open>Errors and the filesystem\<close>

datatype error =
    SyntaxError
  | TypeError
  | UnresolvedReference string
  | ResolutionError string "string list"
  | FileReadError string
  | ExtractionError string string

section \<open>resolveModulePath\<close>

text \<open>
  The alias loop of lines 85-90, over the entries of the alias object: the first alias
  whose key followed by a slash starts the specifier sets \<^verbatim>\<open>basePath\<close> and breaks; otherwise
  \<^verbatim>\<open>basePath\<close> stays the specifier.
\<close>

fun aliasLoop :: "string \<Rightarrow> (string \<times> string) list \<Rightarrow> string \<Rightarrow> string" where
  "aliasLoop cwd [] sourcePath = sourcePath"
| "aliasLoop cwd ((alias, aliasPath) # rest) sourcePath =
     (if startsWith sourcePath (alias @ ''/'')
      then path_resolve cwd aliasPath (replaceFirst sourcePath (alias @ ''/'') [])
      else aliasLoop cwd rest sourcePath)"

definition basePathOf :: "string \<Rightarrow> options \<Rightarrow> string \<Rightarrow> string \<Rightarrow> string" where
  "basePathOf cwd opts dirname sourcePath =
     (let basePath = aliasLoop cwd (objectEntries (aliases opts)) sourcePath
      in if basePath = sourcePath then path_resolve cwd dirname sourcePath else basePath)"

fun tryExtensions :: "(string \<Rightarrow> bool) \<Rightarrow> string \<Rightarrow> string list \<Rightarrow> string option" where
  "tryExtensions existsSync basePath [] = None"
| "tryExtensions existsSync basePath (ext # exts) =
     (if existsSync (basePath @ ext) then Some (basePath @ ext)
      else tryExtensions existsSync basePath exts)"

definition resolveModulePath ::
  "string \<Rightarrow> (string \<Rightarrow> bool) \<Rightarrow> options \<Rightarrow> string \<Rightarrow> string \<Rightarrow> error + string" where
  "resolveModulePath cwd existsSync opts dirname sourcePath =
     (let basePath = basePathOf cwd opts dirname sourcePath
      in case tryExtensions existsSync basePath (extensions opts) of
           Some fullPath \<Rightarrow> Inr fullPath
         | None \<Rightarrow> Inl (ResolutionError sourcePath
                        (map (\<lambda>ext. basePath @ ext) (extensions opts))))"

section \<open>Syntax trees and acorn-walk\<close>

text \<open>
  The part of the ESTree that the two visitors look at. \<^verbatim>\<open>acornParse\<close> produces the tree;
  a template literal carries the cooked values of its quasis and its interpolated
  expressions. Function bodies, blocks and sub-expressions are kept because
  \<^verbatim>\<open>acornWalk.simple\<close> descends into them.
\<close>

datatype specifier =
    ImportSpecifier string string
  | ImportDefaultSpecifier string
  | ImportNamespaceSpecifier string

datatype pat = Identifier string | OtherPattern

datatype expression =
    TemplateLiteral "string list" "expression list"
  | FunctionExpression "statement list"
  | OtherExpression "expression list"
and statement =
    ImportDeclaration "specifier list" string
  | VariableDeclaration "declarator list"
  | ExportNamedDeclaration statement
  | FunctionDeclaration "statement list"
  | BlockStatement "statement list"
  | ExpressionStatement expression
  | OtherStatement
and declarator =
    VariableDeclarator pat "expression option"

text \<open>
  \<^verbatim>\<open>acornWalk.simple\<close> walks the whole tree and calls the visitor of a node after the
  node's children. The functions below list the statement nodes in the order their
  visitors are called.
\<close>

fun walkStatement :: "statement \<Rightarrow> statement list"
  and walkExpression :: "expression \<Rightarrow> statement list"
  and walkDeclarator :: "declarator \<Rightarrow> statement list" where
  "walkStatement (ImportDeclaration specs src) = [ImportDeclaration specs src]"
| "walkStatement (VariableDeclaration ds) =
     concat (map walkDeclarator ds) @ [VariableDeclaration ds]"
| "walkStatement (ExportNamedDeclaration s) = walkStatement s @ [ExportNamedDeclaration s]"
| "walkStatement (FunctionDeclaration body) =
     concat (map walkStatement body) @ [FunctionDeclaration body]"
| "walkStatement (BlockStatement body) =
     concat (map walkStatement body) @ [BlockStatement body]"
| "walkStatement (ExpressionStatement e) = walkExpression e @ [ExpressionStatement e]"
| "walkStatement OtherStatement = [OtherStatement]"
| "walkExpression (TemplateLiteral quasis es) = concat (map walkExpression es)"
| "walkExpression (FunctionExpression body) = concat (map walkStatement body)"
| "walkExpression (OtherExpression es) = concat (map walkExpression es)"
| "walkDeclarator (VariableDeclarator p None) = []"
| "walkDeclarator (VariableDeclarator p (Some e)) = walkExpression e"

definition walkProgram :: "statement list \<Rightarrow> statement list" where
  "walkProgram body = concat (map walkStatement body)"

section \<open>The import index\<close>

fun importVisitor :: "(string \<rightharpoonup> string) \<Rightarrow> statement \<Rightarrow> (string \<rightharpoonup> string)" where
  "importVisitor importMap (ImportDeclaration specs src) =
     foldl (\<lambda>m sp. case sp of ImportSpecifier imported local \<Rightarrow> setProperty m local src
                        | _ \<Rightarrow> m)
       importMap specs"
| "importVisitor importMap _ = importMap"

section \<open>Extraction\<close>

text \<open>
  The visitor of lines 122-132: every declarator whose id is the identifier \<^verbatim>\<open>varName\<close>
  and whose initialiser is a template literal overwrites \<^verbatim>\<open>foundCode\<close> with the joined
  cooked quasis. Line 135 then throws when \<^verbatim>\<open>foundCode\<close> is falsy: \<^verbatim>\<open>null\<close> or the empty
  string.
\<close>

fun declaratorStep :: "string \<Rightarrow> string option \<Rightarrow> declarator \<Rightarrow> string option" where
  "declaratorStep varName foundCode
       (VariableDeclarator (Identifier name) (Some (TemplateLiteral quasis es))) =
     (if name = varName then Some (concat quasis) else foundCode)"
| "declaratorStep varName foundCode _ = foundCode"

fun variableVisitor :: "string \<Rightarrow> string option \<Rightarrow> statement \<Rightarrow> string option" where
  "variableVisitor varName foundCode (VariableDeclaration ds) =
     foldl (declaratorStep varName) foundCode ds"
| "variableVisitor varName foundCode _ = foundCode"

definition extractCode :: "string \<Rightarrow> string \<Rightarrow> statement list \<Rightarrow> error + string" where
  "extractCode absolutePath varName sourceAST =
     (case foldl (variableVisitor varName) None (walkProgram sourceAST) of
        None \<Rightarrow> Inl (ExtractionError absolutePath varName)
      | Some foundCode \<Rightarrow>
          if foundCode = [] then Inl (ExtractionError absolutePath varName)
          else Inr foundCode)"

section \<open>Formatter dispatch\<close>

text \<open>
  \<^verbatim>\<open>toLowerCase\<close> on the ASCII letters and on the Kelvin sign U+212A, the one character
  beyond ASCII whose lower case is an ASCII letter. Other characters are left as they are:
  whatever their lower case is, it is not ASCII, so no comparison with the names below
  depends on it.
\<close>

definition lowerChar :: "char \<Rightarrow> char" where
  "lowerChar c =
     (if 65 \<le> (of_char c :: nat) \<and> (of_char c :: nat) \<le> 90
      then char_of ((of_char c :: nat) + 32) else c)"

fun toLowerCase :: "string \<Rightarrow> string" where
  "toLowerCase (a # b # c # cs) =
     (if a = CHR 0xE2 \<and> b = CHR 0x84 \<and> c = CHR 0xAA then CHR ''k'' # toLowerCase cs
      else lowerChar a # toLowerCase (b # c # cs))"
| "toLowerCase (a # cs) = lowerChar a # toLowerCase cs"
| "toLowerCase [] = []"

fun getParserForLang :: "string option \<Rightarrow> string" where
  "getParserForLang None = ''babel''"
| "getParserForLang (Some l) =
     (if l = [] then ''babel''
      else if toLowerCase l \<in> set [''js'', ''jsx'', ''javascript''] then ''babel''
      else if toLowerCase l \<in> set [''ts'', ''tsx'', ''typescript''] then ''typescript''
      else if toLowerCase l = ''css'' then ''css''
      else if toLowerCase l \<in> set [''scss'', ''sass''] then ''scss''
      else if toLowerCase l \<in> set [''html'', ''xml'', ''svg''] then ''html''
      else if toLowerCase l = ''json'' then ''json''
      else if toLowerCase l \<in> set [''md'', ''markdown''] then ''markdown''
      else if toLowerCase l \<in> set [''yaml'', ''yml''] then ''yaml''
      else if toLowerCase l \<in> set [''graphql'', ''gql''] then ''graphql''
      else ''babel'')"

section \<open>The reference marker\<close>

text \<open>
  \<^verbatim>\<open>/code=\{([a-zA-Z0-9_]+)\}/\<close> matches at a position when \<^verbatim>\<open>code={\<close> stands there, followed
  by a non-empty run of identifier characters and a closing brace; \<^verbatim>\<open>match\<close> returns the
  leftmost match. \<^verbatim>\<open>/code=\{[^}]+\}\s*/\<close>, used to strip the marker, accepts any characters
  but the closing brace between the braces and swallows the whitespace after it.
\<close>

definition isIdentChar :: "char \<Rightarrow> bool" where
  "isIdentChar c =
     (let n = (of_char c :: nat)
      in (97 \<le> n \<and> n \<le> 122) \<or> (65 \<le> n \<and> n \<le> 90) \<or> (48 \<le> n \<and> n \<le> 57) \<or> n = 95)"

definition matchMarkerAt :: "string \<Rightarrow> string option" where
  "matchMarkerAt s =
     (if startsWith s ''code={'' then
        (let name = takeWhile isIdentChar (drop 6 s);
             after = dropWhile isIdentChar (drop 6 s)
         in if name \<noteq> [] \<and> startsWith after ''}'' then Some name else None)
      else None)"

fun matchMarker :: "string \<Rightarrow> string option" where
  "matchMarker [] = None"
| "matchMarker (c # cs) =
     (case matchMarkerAt (c # cs) of Some name \<Rightarrow> Some name | None \<Rightarrow> matchMarker cs)"

definition stripMarkerAt :: "string \<Rightarrow> string option" where
  "stripMarkerAt s =
     (if startsWith s ''code={'' then
        (let body = takeWhile (\<lambda>c. c \<noteq> CHR ''}'') (drop 6 s);
             after = dropWhile (\<lambda>c. c \<noteq> CHR ''}'') (drop 6 s)
         in if body \<noteq> [] \<and> after \<noteq> [] then Some (skipSpace whiteSpace (tl after))
            else None)
      else None)"

fun stripMarker :: "string \<Rightarrow> string" where
  "stripMarker [] = []"
| "stripMarker (c # cs) =
     (case stripMarkerAt (c # cs) of Some rest \<Rightarrow> rest | None \<Rightarrow> c # stripMarker cs)"

section \<open>The document and the transformer\<close>

text \<open>
  The document is the list of its nodes in the order \<^verbatim>\<open>visit\<close> reaches them; the transformer
  changes only the \<^verbatim>\<open>value\<close> and \<^verbatim>\<open>meta\<close> fields of code nodes, never the shape of the tree.
  The environment collects what the transformer takes from outside: the working directory,
  the filesystem, the parser and the formatter. A call that throws returns \<open>None\<close>, or
  \<open>Inl\<close> with the message for the formatter.
\<close>

record codeNode =
  lang :: "string option"
  meta :: "string option"
  nodeValue :: string

datatype node = MdxjsEsm string | Code codeNode | OtherNode

record env =
  processCwd :: string
  fsExistsSync :: "string \<Rightarrow> bool"
  fsReadFileSync :: "string \<Rightarrow> string option"
  acornParse :: "string \<Rightarrow> statement list option"
  prettierFormat :: "string \<Rightarrow> (string \<times> jsValue) list \<Rightarrow> string + string"

datatype diagnostic = FormatFailed string

text \<open>The first \<^verbatim>\<open>visit\<close>, lines 43-58.\<close>

fun importPass :: "env \<Rightarrow> (string \<rightharpoonup> string) \<Rightarrow> node list \<Rightarrow> error + (string \<rightharpoonup> string)" where
  "importPass e importMap [] = Inr importMap"
| "importPass e importMap (MdxjsEsm v # ns) =
     (case acornParse e v of
        None \<Rightarrow> Inl SyntaxError
      | Some ast \<Rightarrow> importPass e (foldl importVisitor importMap (walkProgram ast)) ns)"
| "importPass e importMap (n # ns) = importPass e importMap ns"

text \<open>
  Lines 69-140 of the visitor of a code node: from the referenced identifier to the
  snippet, through the import index, the resolver, the file and its syntax tree. Each
  \<^verbatim>\<open>throw\<close> and each call that throws is an \<open>Inl\<close>. A value inherited from
  \<^verbatim>\<open>Object.prototype\<close> is truthy and not a string: the resolver throws a \<^verbatim>\<open>TypeError\<close> on it,
  at \<^verbatim>\<open>sourcePath.startsWith\<close> or, with no alias, in \<^verbatim>\<open>path.resolve\<close>.
\<close>

definition codeContentOf ::
  "env \<Rightarrow> options \<Rightarrow> string \<Rightarrow> (string \<rightharpoonup> string) \<Rightarrow> string \<Rightarrow> error + string" where
  "codeContentOf e opts dirname importMap varName =
     (case getProperty importMap varName of
        Undefined \<Rightarrow> Inl (UnresolvedReference varName)
      | InheritedValue \<Rightarrow> Inl TypeError
      | StringValue importPath \<Rightarrow>
          if importPath = [] then Inl (UnresolvedReference varName)
          else
            (case resolveModulePath (processCwd e) (fsExistsSync e) opts dirname importPath of
               Inl err \<Rightarrow> Inl err
             | Inr absolutePath \<Rightarrow>
                 (case fsReadFileSync e absolutePath of
                    None \<Rightarrow> Inl (FileReadError absolutePath)
                  | Some sourceCode \<Rightarrow>
                      (case acornParse e sourceCode of
                         None \<Rightarrow> Inl SyntaxError
                       | Some sourceAST \<Rightarrow> extractCode absolutePath varName sourceAST))))"

text \<open>
  The visitor of a code node, lines 62-167. It returns the node as the synchronous part
  leaves it, and the formatting task it has started, if any: the snippet and the language.
\<close>

definition visitCode ::
  "env \<Rightarrow> options \<Rightarrow> string \<Rightarrow> (string \<rightharpoonup> string) \<Rightarrow> codeNode
     \<Rightarrow> error + (codeNode \<times> (string \<times> string) option)" where
  "visitCode e opts dirname importMap nd =
     (case meta nd of
        None \<Rightarrow> Inr (nd, None)
      | Some m \<Rightarrow>
          if m = [] then Inr (nd, None)
          else if includes_str m ''code={'' then
            (case matchMarker m of
               None \<Rightarrow> Inr (nd, None)
             | Some varName \<Rightarrow>
                 (case codeContentOf e opts dirname importMap varName of
                    Inl err \<Rightarrow> Inl err
                  | Inr codeContent \<Rightarrow>
                      (case lang nd of
                         None \<Rightarrow>
                           Inr (nd\<lparr>nodeValue := trim codeContent,
                                   meta := Some (trim (stripMarker m))\<rparr>, None)
                       | Some l \<Rightarrow>
                           if l = [] then
                             Inr (nd\<lparr>nodeValue := trim codeContent,
                                     meta := Some (trim (stripMarker m))\<rparr>, None)
                           else
                             Inr (nd\<lparr>meta := Some (trim (stripMarker m))\<rparr>,
                                  Some (codeContent, l)))))
          else Inr (nd, None))"

text \<open>The second \<^verbatim>\<open>visit\<close>: an exception of a visitor ends the traversal.\<close>

fun codePass ::
  "env \<Rightarrow> options \<Rightarrow> string \<Rightarrow> (string \<rightharpoonup> string) \<Rightarrow> node list
     \<Rightarrow> error + (node \<times> (string \<times> string) option) list" where
  "codePass e opts dirname importMap [] = Inr []"
| "codePass e opts dirname importMap (Code nd # ns) =
     (case visitCode e opts dirname importMap nd of
        Inl err \<Rightarrow> Inl err
      | Inr (nd', task) \<Rightarrow>
          (case codePass e opts dirname importMap ns of
             Inl err \<Rightarrow> Inl err
           | Inr rs \<Rightarrow> Inr ((Code nd', task) # rs)))"
| "codePass e opts dirname importMap (n # ns) =
     (case codePass e opts dirname importMap ns of
        Inl err \<Rightarrow> Inl err
      | Inr rs \<Rightarrow> Inr ((n, None) # rs))"

text \<open>The options of line 152: the merged formatter options with the parser added.\<close>

definition formatOptions :: "options \<Rightarrow> string \<Rightarrow> (string \<times> jsValue) list" where
  "formatOptions opts l =
     spread (prettierOptions opts) [(''parser'', JStr (getParserForLang (Some l)))]"

text \<open>
  \<^verbatim>\<open>formatPromise\<close>, lines 147-160, as it has settled when \<^verbatim>\<open>Promise.all\<close> returns: the
  formatted text, or after a throw the trimmed snippet and a warning.
\<close>

fun formatPromise ::
  "env \<Rightarrow> options \<Rightarrow> node \<times> (string \<times> string) option \<Rightarrow> node \<times> diagnostic list" where
  "formatPromise e opts (Code nd, Some (codeContent, l)) =
     (case prettierFormat e (trim codeContent) (formatOptions opts l) of
        Inr formatted \<Rightarrow> (Code (nd\<lparr>nodeValue := formatted\<rparr>), [])
      | Inl message \<Rightarrow> (Code (nd\<lparr>nodeValue := trim codeContent\<rparr>), [FormatFailed message]))"
| "formatPromise e opts (n, task) = (n, [])"

definition transformer ::
  "env \<Rightarrow> options \<Rightarrow> string \<Rightarrow> node list \<Rightarrow> error + (node list \<times> diagnostic list)" where
  "transformer e opts dirname tree =
     (case importPass e Map.empty tree of
        Inl err \<Rightarrow> Inl err
      | Inr importMap \<Rightarrow>
          (case codePass e opts dirname importMap tree of
             Inl err \<Rightarrow> Inl err
           | Inr rs \<Rightarrow>
               Inr (map (\<lambda>r. fst (formatPromise e opts r)) rs,
                    concat (map (\<lambda>r. snd (formatPromise e opts r)) rs))))"

definition remarkCodeSnippets ::
  "env \<Rightarrow> userOptions \<Rightarrow> string \<Rightarrow> node list \<Rightarrow> error + (node list \<times> diagnostic list)" where
  "remarkCodeSnippets e userOpts = transformer e (mergedOptions (processCwd e) userOpts)"

section \<open>Auxiliary notions for the statements\<close>

definition cleanSeg :: "string \<Rightarrow> bool" where
  "cleanSeg s = (s \<noteq> [] \<and> s \<noteq> ''.'' \<and> s \<noteq> ''..'' \<and> CHR ''/'' \<notin> set s)"

text \<open>
  The absolute path made of the segments of a text, normalised. The base path of an alias
  joined with the rest of a specifier is \<open>normalizedAbsolute (aliasPath @ ''/'' @ rest)\<close>.
\<close>

definition normalizedAbsolute :: "string \<Rightarrow> string" where
  "normalizedAbsolute s = CHR ''/'' # normalizeString s False"

text \<open>
  The value a declarator would store in \<^verbatim>\<open>foundCode\<close>, and the values stored during a walk
  of a module, in the order of the visits.
\<close>

fun matchValue :: "string \<Rightarrow> declarator \<Rightarrow> string option" where
  "matchValue varName (VariableDeclarator (Identifier name) (Some (TemplateLiteral quasis es))) =
     (if name = varName then Some (concat quasis) else None)"
| "matchValue varName _ = None"

fun declaratorsOf :: "statement \<Rightarrow> declarator list" where
  "declaratorsOf (VariableDeclaration ds) = ds"
| "declaratorsOf _ = []"

definition visitedMatches :: "string \<Rightarrow> statement list \<Rightarrow> string list" where
  "visitedMatches varName sourceAST =
     List.map_filter (matchValue varName) (concat (map declaratorsOf (walkProgram sourceAST)))"

text \<open>
  The reading of the specification: only the variable declarations that are statements of
  the module itself, exported or not, are looked at.
\<close>

fun topLevelDeclarators :: "statement \<Rightarrow> declarator list" where
  "topLevelDeclarators (VariableDeclaration ds) = ds"
| "topLevelDeclarators (ExportNamedDeclaration (VariableDeclaration ds)) = ds"
| "topLevelDeclarators _ = []"

definition spec_topLevelMatches :: "string \<Rightarrow> statement list \<Rightarrow> string list" where
  "spec_topLevelMatches varName sourceAST =
     List.map_filter (matchValue varName) (concat (map topLevelDeclarators sourceAST))"

text \<open>
  All declarators of a module, whatever their depth and whether their declaration is
  exported or not, read off the tree: the declarators nested in the initialisers of a
  declaration come before the declarators of that declaration, and otherwise the order is
  that of the source.
\<close>

fun statementDeclarators :: "statement \<Rightarrow> declarator list"
  and expressionDeclarators :: "expression \<Rightarrow> declarator list"
  and nestedDeclarators :: "declarator \<Rightarrow> declarator list" where
  "statementDeclarators (ImportDeclaration specs src) = []"
| "statementDeclarators (VariableDeclaration ds) = concat (map nestedDeclarators ds) @ ds"
| "statementDeclarators (ExportNamedDeclaration s) = statementDeclarators s"
| "statementDeclarators (FunctionDeclaration body) = concat (map statementDeclarators body)"
| "statementDeclarators (BlockStatement body) = concat (map statementDeclarators body)"
| "statementDeclarators (ExpressionStatement e) = expressionDeclarators e"
| "statementDeclarators OtherStatement = []"
| "expressionDeclarators (TemplateLiteral quasis es) = concat (map expressionDeclarators es)"
| "expressionDeclarators (FunctionExpression body) = concat (map statementDeclarators body)"
| "expressionDeclarators (OtherExpression es) = concat (map expressionDeclarators es)"
| "nestedDeclarators (VariableDeclarator p None) = []"
| "nestedDeclarators (VariableDeclarator p (Some e)) = expressionDeclarators e"

definition moduleDeclarators :: "statement list \<Rightarrow> declarator list" where
  "moduleDeclarators body = concat (map statementDeclarators body)"

text \<open>A node carries a reference marker when the pattern of line 65 matches its meta.\<close>

definition carriesMarker :: "node \<Rightarrow> bool" where
  "carriesMarker n =
     (case n of
        Code nd \<Rightarrow> (case meta nd of None \<Rightarrow> False | Some m \<Rightarrow> matchMarker m \<noteq> None)
      | _ \<Rightarrow> False)"

text \<open>
  A small project for the examples: the document imports \<^verbatim>\<open>snippetA\<close> from
  \<^verbatim>\<open>@code/demo\<close>, the module \<^verbatim>\<open>/project/src/code-snippets/demo.ts\<close> exports it, and the parser
  is given as the table from these two texts to their trees.
\<close>

definition exampleImport :: string where
  "exampleImport = ''import { snippetA } from '' @ [CHR 0x27] @ ''@code/demo'' @ [CHR 0x27] @ '';''"

definition exampleModule :: string where
  "exampleModule = ''export const snippetA = `\<newline>const x = 1;\<newline>`;''"

definition exampleEnv :: "(string \<Rightarrow> (string \<times> jsValue) list \<Rightarrow> string + string) \<Rightarrow> env" where
  "exampleEnv fmt =
     \<lparr> processCwd = ''/project'',
       fsExistsSync = (\<lambda>p. p = ''/project/src/code-snippets/demo.ts''),
       fsReadFileSync =
         (\<lambda>p. if p = ''/project/src/code-snippets/demo.ts'' then Some exampleModule else None),
       acornParse =
         (\<lambda>s. if s = exampleImport
              then Some [ImportDeclaration [ImportSpecifier ''snippetA'' ''snippetA''] ''@code/demo'']
              else if s = exampleModule
              then Some [ExportNamedDeclaration (VariableDeclaration
                     [VariableDeclarator (Identifier ''snippetA'')
                        (Some (TemplateLiteral [''\<newline>const x = 1;\<newline>''] []))])]
              else None),
       prettierFormat = fmt \<rparr>"

definition exampleTree :: "node list" where
  "exampleTree =
     [MdxjsEsm exampleImport, OtherNode,
      Code \<lparr>lang = Some ''ts'', meta = Some ''ts code={snippetA}'', nodeValue = []\<rparr>]"

section \<open>Properties of the resolver\<close>

subsection \<open>Extension probing\<close>

lemma tryExtensions_None_iff:
  "tryExtensions ex b exts = None \<longleftrightarrow> (\<forall>e \<in> set exts. \<not> ex (b @ e))"
  by (induction exts) auto

lemma tryExtensions_Some_iff:
  "tryExtensions ex b exts = Some p \<longleftrightarrow>
     (\<exists>i < length exts. p = b @ exts ! i \<and> ex p \<and> (\<forall>j < i. \<not> ex (b @ exts ! j)))"
proof (induction exts)
  case Nil
  then show ?case by simp
next
  case (Cons e exts)
  show ?case
  proof (cases "ex (b @ e)")
    case True
    have "(\<exists>i < length (e # exts). p = b @ (e # exts) ! i \<and> ex p \<and>
            (\<forall>j < i. \<not> ex (b @ (e # exts) ! j))) \<longleftrightarrow> p = b @ e"
    proof
      assume "\<exists>i < length (e # exts). p = b @ (e # exts) ! i \<and> ex p \<and>
            (\<forall>j < i. \<not> ex (b @ (e # exts) ! j))"
      then obtain i where i: "i < length (e # exts)" "p = b @ (e # exts) ! i"
        "\<forall>j < i. \<not> ex (b @ (e # exts) ! j)" by blast
      have "i = 0"
      proof (rule ccontr)
        assume "i \<noteq> 0"
        then have "0 < i" by simp
        with i(3) have "\<not> ex (b @ (e # exts) ! 0)" by blast
        with True show False by simp
      qed
      with i(2) show "p = b @ e" by simp
    next
      assume "p = b @ e"
      with True have "0 < length (e # exts) \<and> p = b @ (e # exts) ! 0 \<and> ex p \<and>
            (\<forall>j < 0. \<not> ex (b @ (e # exts) ! j))" by simp
      then show "\<exists>i < length (e # exts). p = b @ (e # exts) ! i \<and> ex p \<and>
            (\<forall>j < i. \<not> ex (b @ (e # exts) ! j))" by blast
    qed
    with True show ?thesis by auto
  next
    case False
    have "(\<exists>i < length (e # exts). p = b @ (e # exts) ! i \<and> ex p \<and>
            (\<forall>j < i. \<not> ex (b @ (e # exts) ! j))) \<longleftrightarrow>
          (\<exists>i < length exts. p = b @ exts ! i \<and> ex p \<and> (\<forall>j < i. \<not> ex (b @ exts ! j)))"
      (is "?L \<longleftrightarrow> ?R")
    proof
      assume ?L
      then obtain i where i: "i < length (e # exts)" "p = b @ (e # exts) ! i" "ex p"
        "\<forall>j < i. \<not> ex (b @ (e # exts) ! j)" by blast
      from i(2,3) False have "i \<noteq> 0" by (cases i) auto
      then obtain k where k: "i = Suc k" by (cases i) auto
      have "\<forall>j < k. \<not> ex (b @ exts ! j)"
      proof (intro allI impI)
        fix j assume "j < k"
        then have "Suc j < i" using k by simp
        with i(4) have "\<not> ex (b @ (e # exts) ! Suc j)" by blast
        then show "\<not> ex (b @ exts ! j)" by simp
      qed
      with i k show ?R by auto
    next
      assume ?R
      then obtain k where k: "k < length exts" "p = b @ exts ! k" "ex p"
        "\<forall>j < k. \<not> ex (b @ exts ! j)" by blast
      have "\<forall>j < Suc k. \<not> ex (b @ (e # exts) ! j)"
      proof (intro allI impI)
        fix j assume "j < Suc k"
        then show "\<not> ex (b @ (e # exts) ! j)" using False k(4) by (cases j) auto
      qed
      with k have "Suc k < length (e # exts) \<and> p = b @ (e # exts) ! Suc k \<and> ex p \<and>
         (\<forall>j < Suc k. \<not> ex (b @ (e # exts) ! j))" by simp
      then show ?L by blast
    qed
    with False Cons.IH show ?thesis by simp
  qed
qed

lemma tryExtensions_cong_paths:
  "(\<forall>e \<in> set exts. ex (b @ e) = ex' (b @ e)) \<Longrightarrow>
     tryExtensions ex b exts = tryExtensions ex' b exts"
  by (induction exts) auto

text \<open>
  Claim C3. The resolver probes \<^verbatim>\<open>basePath + extension\<close> in the order of the configured
  extension list and returns the first candidate that exists: the result is the candidate
  of the least index whose path exists, so of two existing candidates the earlier-listed
  one is chosen.
\<close>

theorem probe_in_list_order:
  "resolveModulePath cwd existsSync opts dirname sourcePath = Inr fullPath \<longleftrightarrow>
     (\<exists>i < length (extensions opts).
        fullPath = basePathOf cwd opts dirname sourcePath @ extensions opts ! i \<and>
        existsSync fullPath \<and>
        (\<forall>j < i. \<not> existsSync (basePathOf cwd opts dirname sourcePath @ extensions opts ! j)))"
  unfolding resolveModulePath_def Let_def
  using tryExtensions_Some_iff
    [of existsSync "basePathOf cwd opts dirname sourcePath" "extensions opts" fullPath]
  by (auto split: option.splits)

theorem probe_in_list_order_witness:
  "resolveModulePath ''/work''
     (\<lambda>p. p = ''/docs/X.ts'' \<or> p = ''/docs/X/index.ts'')
     (defaultOptions ''/work'') ''/docs'' ''./X'' = Inr ''/docs/X.ts''"
proof -
  have base: "basePathOf ''/work'' (defaultOptions ''/work'') ''/docs'' ''./X'' = ''/docs/X''"
    by code_simp
  have exts: "extensions (defaultOptions ''/work'') =
      [''.ts'', ''.tsx'', ''.js'', ''.jsx'',
       ''/index.ts'', ''/index.tsx'', ''/index.js'', ''/index.jsx'']"
    by (simp add: defaultOptions_def)
  show ?thesis
    by (rule iffD2 [OF probe_in_list_order], rule exI [of _ 0]) (simp add: base exts)
qed

text \<open>
  Claim C6. When no candidate exists, resolution fails with an error that carries the
  original specifier and every probed path, \<^verbatim>\<open>basePath + extension\<close> for each configured
  extension in order.
\<close>

theorem resolution_error_lists_probes:
  "(\<forall>ext \<in> set (extensions opts).
      \<not> existsSync (basePathOf cwd opts dirname sourcePath @ ext)) \<Longrightarrow>
   resolveModulePath cwd existsSync opts dirname sourcePath =
     Inl (ResolutionError sourcePath
            (map (\<lambda>ext. basePathOf cwd opts dirname sourcePath @ ext) (extensions opts)))"
  unfolding resolveModulePath_def Let_def
  using tryExtensions_None_iff
    [of existsSync "basePathOf cwd opts dirname sourcePath" "extensions opts"]
  by (auto split: option.splits)

theorem resolution_error_lists_probes_witness:
  "resolveModulePath ''/project'' (\<lambda>p. False) (defaultOptions ''/project'') ''/docs''
     ''@code/demo'' =
   Inl (ResolutionError ''@code/demo''
     [''/project/src/code-snippets/demo.ts'', ''/project/src/code-snippets/demo.tsx'',
      ''/project/src/code-snippets/demo.js'', ''/project/src/code-snippets/demo.jsx'',
      ''/project/src/code-snippets/demo/index.ts'',
      ''/project/src/code-snippets/demo/index.tsx'',
      ''/project/src/code-snippets/demo/index.js'',
      ''/project/src/code-snippets/demo/index.jsx''])"
proof -
  have base: "basePathOf ''/project'' (defaultOptions ''/project'') ''/docs'' ''@code/demo''
      = ''/project/src/code-snippets/demo''"
    by code_simp
  have exts: "extensions (defaultOptions ''/project'') =
      [''.ts'', ''.tsx'', ''.js'', ''.jsx'',
       ''/index.ts'', ''/index.tsx'', ''/index.js'', ''/index.jsx'']"
    by (simp add: defaultOptions_def)
  show ?thesis
    using resolution_error_lists_probes
      [of "defaultOptions ''/project''" "\<lambda>p. False" "''/project''" "''/docs''" "''@code/demo''"]
    by (simp add: base exts)
qed

text \<open>
  Claim C10. The resolver tests only the paths \<^verbatim>\<open>basePath + extension\<close>: two filesystems
  that agree on these paths give the same result, and resolution fails with a resolution
  error exactly when no configured suffix appended to the base path names an existing file.
  Unless the empty suffix is configured, whether the bare base path exists makes no
  difference. A specifier that already ends in its file extension therefore fails unless
  a suffixed path exists.
\<close>

theorem only_suffixed_paths_tested:
  "((\<forall>ext \<in> set (extensions opts).
        existsSync (basePathOf cwd opts dirname sourcePath @ ext) =
        existsSync' (basePathOf cwd opts dirname sourcePath @ ext)) \<longrightarrow>
      resolveModulePath cwd existsSync opts dirname sourcePath =
      resolveModulePath cwd existsSync' opts dirname sourcePath) \<and>
   ((\<exists>probed. resolveModulePath cwd existsSync opts dirname sourcePath =
        Inl (ResolutionError sourcePath probed)) \<longleftrightarrow>
    (\<forall>ext \<in> set (extensions opts).
        \<not> existsSync (basePathOf cwd opts dirname sourcePath @ ext))) \<and>
   ([] \<notin> set (extensions opts) \<longrightarrow>
      resolveModulePath cwd (existsSync(basePathOf cwd opts dirname sourcePath := b))
        opts dirname sourcePath =
      resolveModulePath cwd existsSync opts dirname sourcePath)"
proof (intro conjI impI)
  assume "\<forall>ext \<in> set (extensions opts).
        existsSync (basePathOf cwd opts dirname sourcePath @ ext) =
        existsSync' (basePathOf cwd opts dirname sourcePath @ ext)"
  then have "tryExtensions existsSync (basePathOf cwd opts dirname sourcePath) (extensions opts)
     = tryExtensions existsSync' (basePathOf cwd opts dirname sourcePath) (extensions opts)"
    by (rule tryExtensions_cong_paths)
  then show "resolveModulePath cwd existsSync opts dirname sourcePath =
      resolveModulePath cwd existsSync' opts dirname sourcePath"
    by (simp add: resolveModulePath_def)
next
  show "(\<exists>probed. resolveModulePath cwd existsSync opts dirname sourcePath =
        Inl (ResolutionError sourcePath probed)) \<longleftrightarrow>
    (\<forall>ext \<in> set (extensions opts).
        \<not> existsSync (basePathOf cwd opts dirname sourcePath @ ext))"
    unfolding resolveModulePath_def Let_def
    using tryExtensions_None_iff
      [of existsSync "basePathOf cwd opts dirname sourcePath" "extensions opts"]
    by (auto split: option.splits)
next
  assume "[] \<notin> set (extensions opts)"
  then have "\<forall>ext \<in> set (extensions opts).
      (existsSync(basePathOf cwd opts dirname sourcePath := b))
        (basePathOf cwd opts dirname sourcePath @ ext) =
      existsSync (basePathOf cwd opts dirname sourcePath @ ext)"
    by auto
  then have "tryExtensions (existsSync(basePathOf cwd opts dirname sourcePath := b))
       (basePathOf cwd opts dirname sourcePath) (extensions opts)
     = tryExtensions existsSync (basePathOf cwd opts dirname sourcePath) (extensions opts)"
    by (rule tryExtensions_cong_paths)
  then show "resolveModulePath cwd (existsSync(basePathOf cwd opts dirname sourcePath := b))
        opts dirname sourcePath =
      resolveModulePath cwd existsSync opts dirname sourcePath"
    by (simp add: resolveModulePath_def)
qed

theorem only_suffixed_paths_tested_witness:
  "resolveModulePath ''/work'' (\<lambda>p. p = ''/docs/demo.ts'') (defaultOptions ''/work'')
     ''/docs'' ''./demo.ts'' =
   resolveModulePath ''/work'' (\<lambda>p. False) (defaultOptions ''/work'') ''/docs'' ''./demo.ts''
   \<and> (\<exists>probed. resolveModulePath ''/work'' (\<lambda>p. p = ''/docs/demo.ts'')
         (defaultOptions ''/work'') ''/docs'' ''./demo.ts'' =
       Inl (ResolutionError ''./demo.ts'' probed))
   \<and> resolveModulePath ''/work'' ((\<lambda>p. p = ''/docs/demo.ts'')(''/docs/demo.ts'' := False))
       (defaultOptions ''/work'') ''/docs'' ''./demo.ts'' =
     resolveModulePath ''/work'' (\<lambda>p. p = ''/docs/demo.ts'') (defaultOptions ''/work'')
       ''/docs'' ''./demo.ts''"
proof -
  have base: "basePathOf ''/work'' (defaultOptions ''/work'') ''/docs'' ''./demo.ts''
      = ''/docs/demo.ts''"
    by code_simp
  have exts: "extensions (defaultOptions ''/work'') =
      [''.ts'', ''.tsx'', ''.js'', ''.jsx'',
       ''/index.ts'', ''/index.tsx'', ''/index.js'', ''/index.jsx'']"
    by (simp add: defaultOptions_def)
  note inst = only_suffixed_paths_tested
      [of "defaultOptions ''/work''" "\<lambda>p. p = ''/docs/demo.ts''" "''/work''" "''/docs''"
          "''./demo.ts''" "\<lambda>p. False" False]
  have same: "resolveModulePath ''/work'' (\<lambda>p. p = ''/docs/demo.ts'')
       (defaultOptions ''/work'') ''/docs'' ''./demo.ts'' =
     resolveModulePath ''/work'' (\<lambda>p. False) (defaultOptions ''/work'') ''/docs'' ''./demo.ts''"
    using inst [THEN conjunct1] by (simp add: base exts)
  have fails: "\<exists>probed. resolveModulePath ''/work'' (\<lambda>p. p = ''/docs/demo.ts'')
         (defaultOptions ''/work'') ''/docs'' ''./demo.ts'' =
       Inl (ResolutionError ''./demo.ts'' probed)"
    using inst [THEN conjunct2, THEN conjunct1] by (simp add: base exts)
  have bare: "resolveModulePath ''/work''
       ((\<lambda>p. p = ''/docs/demo.ts'')(''/docs/demo.ts'' := False))
       (defaultOptions ''/work'') ''/docs'' ''./demo.ts'' =
     resolveModulePath ''/work'' (\<lambda>p. p = ''/docs/demo.ts'') (defaultOptions ''/work'')
       ''/docs'' ''./demo.ts''"
    using inst [THEN conjunct2, THEN conjunct2] by (simp add: base exts)
  from same fails bare show ?thesis by (intro conjI)
qed

section \<open>Properties of path.resolve and of the alias scan\<close>

lemma startsWith_Nil [simp]: "startsWith s []"
  by (simp add: startsWith_def)

lemma startsWith_slash: "startsWith s ''/'' \<longleftrightarrow> s \<noteq> [] \<and> hd s = CHR ''/''"
  by (cases s) (auto simp: startsWith_def)

lemma replaceFirst_prefix:
  "startsWith s p \<Longrightarrow> replaceFirst s p rep = rep @ drop (length p) s"
  by (cases s) (auto simp: startsWith_def)

lemma splitSlash_not_Nil [simp]: "splitSlash s \<noteq> []"
  by (induction s) (auto split: list.splits)

lemma splitSlash_segments: "seg \<in> set (splitSlash s) \<Longrightarrow> CHR ''/'' \<notin> set seg"
  by (induction s arbitrary: seg) (auto split: list.splits if_splits)

lemma splitSlash_plain: "CHR ''/'' \<notin> set s \<Longrightarrow> splitSlash s = [s]"
  by (induction s) auto

lemma splitSlash_append: "splitSlash (a @ CHR ''/'' # b) = splitSlash a @ splitSlash b"
proof (induction a)
  case Nil
  then show ?case by simp
next
  case (Cons c a)
  then show ?case by (cases "splitSlash a") auto
qed

lemma splitSlash_join:
  "segs \<noteq> [] \<Longrightarrow> \<forall>s \<in> set segs. CHR ''/'' \<notin> set s \<Longrightarrow>
     splitSlash (join_str ''/'' segs) = segs"
proof (induction "''/''" segs rule: join_str.induct)
  case 1
  then show ?case by simp
next
  case (2 x)
  then show ?case by (simp add: splitSlash_plain)
next
  case (3 x y ys)
  have "splitSlash (x @ CHR ''/'' # join_str ''/'' (y # ys))
      = splitSlash x @ splitSlash (join_str ''/'' (y # ys))"
    by (rule splitSlash_append)
  with 3 show ?case by (simp add: splitSlash_plain)
qed

lemma normStep_clean:
  "list_all cleanSeg res \<Longrightarrow> CHR ''/'' \<notin> set seg \<Longrightarrow> list_all cleanSeg (normStep False res seg)"
proof -
  assume res: "list_all cleanSeg res" and seg: "CHR ''/'' \<notin> set seg"
  have bl: "list_all cleanSeg (butlast res)"
    using res by (metis in_set_butlastD list_all_iff)
  show ?thesis
    using res seg bl by (auto simp: normStep_def cleanSeg_def)
qed

lemma foldl_normStep_clean:
  "list_all cleanSeg acc \<Longrightarrow> \<forall>s \<in> set segs. CHR ''/'' \<notin> set s \<Longrightarrow>
     list_all cleanSeg (foldl (normStep False) acc segs)"
  by (induction segs arbitrary: acc) (auto simp: normStep_clean)

lemma foldl_normStep_id:
  "list_all cleanSeg segs \<Longrightarrow> foldl (normStep f) acc segs = acc @ segs"
  by (induction segs arbitrary: acc) (auto simp: normStep_def cleanSeg_def)

lemma normStep_empty [simp]: "normStep f res [] = res"
  by (simp add: normStep_def)

lemma path_resolve_fixed:
  assumes "list_all cleanSeg segs"
  shows "path_resolve cwd d (CHR ''/'' # join_str ''/'' segs) = CHR ''/'' # join_str ''/'' segs"
proof -
  let ?p = "CHR ''/'' # join_str ''/'' segs"
  have loop: "resolveLoop [?p, d, cwd] [] = (?p @ ''/'', True)"
    by simp
  have split: "foldl (normStep False) [] (splitSlash (?p @ ''/'')) = segs"
  proof (cases "segs = []")
    case True
    then show ?thesis by simp
  next
    case False
    have noslash: "\<forall>s \<in> set segs. CHR ''/'' \<notin> set s"
      using assms by (auto simp: list_all_iff cleanSeg_def)
    have "splitSlash (?p @ ''/'') = [] # splitSlash (join_str ''/'' segs @ ''/'')"
      by simp
    also have "splitSlash (join_str ''/'' segs @ ''/'') = splitSlash (join_str ''/'' segs) @ [[]]"
      using splitSlash_append [of "join_str ''/'' segs" "[]"] by simp
    also have "splitSlash (join_str ''/'' segs) = segs"
      using False noslash by (rule splitSlash_join)
    finally have "splitSlash (?p @ ''/'') = [] # segs @ [[]]" .
    then show ?thesis
      using assms by (simp add: foldl_normStep_id)
  qed
  show ?thesis
    unfolding path_resolve_def loop using split by (simp add: normalizeString_def)
qed

lemma path_resolve_join:
  assumes a: "startsWith a ''/''" and r: "\<not> startsWith r ''/''"
  shows "path_resolve cwd a r = path_resolve cwd d (a @ ''/'' @ r)"
proof (cases "r = []")
  case True
  have l: "resolveLoop [r, a, cwd] [] = (a @ ''/'', True)"
    using a True by (auto simp: startsWith_slash)
  have rr: "resolveLoop [a @ ''/'' @ r, d, cwd] [] = (a @ ''//'', True)"
    using a True by (auto simp: startsWith_slash)
  have "splitSlash (a @ ''//'') = splitSlash a @ [[], []]"
    using splitSlash_append [of a "''/''"] by simp
  moreover have "splitSlash (a @ ''/'') = splitSlash a @ [[]]"
    using splitSlash_append [of a "[]"] by simp
  ultimately have "normalizeString (a @ ''//'') False = normalizeString (a @ ''/'') False"
    by (simp add: normalizeString_def)
  then show ?thesis
    unfolding path_resolve_def l rr by simp
next
  case False
  have l: "resolveLoop [r, a, cwd] [] = (a @ ''/'' @ r @ ''/'', True)"
    using a r False by (auto simp: startsWith_slash)
  have rr: "resolveLoop [a @ ''/'' @ r, d, cwd] [] = (a @ ''/'' @ r @ ''/'', True)"
    using a by (auto simp: startsWith_slash)
  show ?thesis
    unfolding path_resolve_def l rr by simp
qed

lemma aliasLoop_find:
  "aliasLoop cwd as src =
     (case find (\<lambda>(alias, aliasPath). startsWith src (alias @ ''/'')) as of
        None \<Rightarrow> src
      | Some (alias, aliasPath) \<Rightarrow> path_resolve cwd aliasPath (drop (length alias + 1) src))"
  by (induction cwd as src rule: aliasLoop.induct) (auto simp: replaceFirst_prefix)

lemma resolveLoop_some_absolute:
  "startsWith cwd ''/'' \<or> startsWith a ''/'' \<or> startsWith b ''/'' \<Longrightarrow>
     \<exists>rp. resolveLoop [b, a, cwd] [] = (rp, True)"
  by (auto simp: startsWith_slash)

lemma path_resolve_clean:
  assumes "startsWith cwd ''/'' \<or> startsWith a ''/'' \<or> startsWith b ''/''"
  shows "\<exists>segs. list_all cleanSeg segs \<and> path_resolve cwd a b = CHR ''/'' # join_str ''/'' segs"
proof -
  from assms obtain rp where rp: "resolveLoop [b, a, cwd] [] = (rp, True)"
    using resolveLoop_some_absolute by blast
  let ?segs = "foldl (normStep False) [] (splitSlash rp)"
  have "list_all cleanSeg ?segs"
    by (rule foldl_normStep_clean) (auto dest: splitSlash_segments)
  moreover have "path_resolve cwd a b = CHR ''/'' # join_str ''/'' ?segs"
    using rp by (simp add: path_resolve_def normalizeString_def)
  ultimately show ?thesis by blast
qed

lemma path_resolve_idem:
  assumes "startsWith cwd ''/'' \<or> startsWith a ''/'' \<or> startsWith b ''/''"
  shows "path_resolve cwd d (path_resolve cwd a b) = path_resolve cwd a b"
  using path_resolve_clean [OF assms] path_resolve_fixed by auto

lemma normalizeString_trailing_slash:
  "normalizeString (s @ ''/'') f = normalizeString s f"
proof -
  have "splitSlash (s @ ''/'') = splitSlash s @ [[]]"
    using splitSlash_append [of s "[]"] by simp
  then show ?thesis by (simp add: normalizeString_def)
qed

lemma path_resolve_joined:
  assumes a: "startsWith a ''/''" and r: "\<not> startsWith r ''/''"
  shows "path_resolve cwd a r = normalizedAbsolute (a @ ''/'' @ r)"
proof (cases "r = []")
  case True
  have "resolveLoop [r, a, cwd] [] = (a @ ''/'', True)"
    using a True by (auto simp: startsWith_slash)
  then show ?thesis
    using True by (simp add: path_resolve_def normalizedAbsolute_def)
next
  case False
  have "resolveLoop [r, a, cwd] [] = ((a @ ''/'' @ r) @ ''/'', True)"
    using a r False by (auto simp: startsWith_slash)
  then show ?thesis
    by (simp only: path_resolve_def normalizedAbsolute_def normalizeString_trailing_slash
          prod.case if_True)
qed

lemma path_resolve_absolute_rest:
  assumes "startsWith r ''/''"
  shows "path_resolve cwd a r = normalizedAbsolute r"
proof -
  have "resolveLoop [r, a, cwd] [] = (r @ ''/'', True)"
    using assms by (auto simp: startsWith_slash)
  then show ?thesis
    by (simp only: path_resolve_def normalizedAbsolute_def normalizeString_trailing_slash
          prod.case if_True)
qed

lemma basePathOf_alias:
  assumes "startsWith cwd ''/'' \<or> startsWith aliasPath ''/''"
    and "find (\<lambda>(a, p). startsWith src (a @ ''/'')) (objectEntries (aliases opts))
           = Some (al, aliasPath)"
  shows "basePathOf cwd opts dirname src = path_resolve cwd aliasPath (drop (length al + 1) src)"
proof -
  let ?b = "path_resolve cwd aliasPath (drop (length al + 1) src)"
  have loop: "aliasLoop cwd (objectEntries (aliases opts)) src = ?b"
    using assms(2) by (simp add: aliasLoop_find)
  have idem: "path_resolve cwd dirname ?b = ?b"
    using assms(1) by (intro path_resolve_idem) blast
  have "(if ?b = src then path_resolve cwd dirname src else ?b) = ?b"
  proof (cases "?b = src")
    case True
    with idem show ?thesis by metis
  next
    case False
    then show ?thesis by (simp only: if_False)
  qed
  then show ?thesis
    unfolding basePathOf_def Let_def loop .
qed

lemma basePathOf_find:
  assumes "startsWith cwd ''/''"
  shows "basePathOf cwd opts dirname src =
     (case find (\<lambda>(alias, aliasPath). startsWith src (alias @ ''/''))
             (objectEntries (aliases opts)) of
        None \<Rightarrow> path_resolve cwd dirname src
      | Some (alias, aliasPath) \<Rightarrow> path_resolve cwd aliasPath (drop (length alias + 1) src))"
proof (cases "find (\<lambda>(alias, aliasPath). startsWith src (alias @ ''/''))
    (objectEntries (aliases opts))")
  case None
  then show ?thesis by (simp add: basePathOf_def aliasLoop_find)
next
  case (Some ap)
  obtain al aliasPath where ap: "ap = (al, aliasPath)" by (cases ap)
  have "basePathOf cwd opts dirname src = path_resolve cwd aliasPath (drop (length al + 1) src)"
    using assms Some ap by (intro basePathOf_alias) auto
  then show ?thesis
    using Some ap by simp
qed

lemma objectEntries_Nil [simp]: "objectEntries [] = []"
  by (simp add: objectEntries_def)

lemma basePathOf_no_aliases:
  "basePathOf cwd (opts\<lparr>aliases := []\<rparr>) dirname src = path_resolve cwd dirname src"
  by (simp add: basePathOf_def)

text \<open>
  Claim C2, as amended. With an absolute working directory, the aliases are scanned in the
  order of \<^verbatim>\<open>Object.entries\<close>: array indices in ascending numeric order first, then the
  other keys in the order of their creation. The first alias whose key followed by \<^verbatim>\<open>/\<close> is
  a prefix of the specifier decides and ends the scan, and the base path is
  \<^verbatim>\<open>path.resolve\<close> of its base path and the rest of the specifier after that prefix. That
  is the base path of the alias joined with the rest (the two put together with a
  separator and normalised) when the base path of the alias is absolute and the rest does
  not begin with a slash, and the normalised rest alone, without the base path of the
  alias, when the rest begins with a slash. Keys that occur elsewhere in the specifier, or
  without the separator, do not match. When no alias matches, the unchanged specifier is
  resolved against the directory of the document.
\<close>

theorem alias_scan_first_match:
  assumes "startsWith cwd ''/''"
  shows "basePathOf cwd opts dirname sourcePath =
     (case find (\<lambda>(alias, aliasPath). startsWith sourcePath (alias @ ''/''))
             (objectEntries (aliases opts)) of
        None \<Rightarrow> path_resolve cwd dirname sourcePath
      | Some (alias, aliasPath) \<Rightarrow>
          path_resolve cwd aliasPath (drop (length alias + 1) sourcePath))
   \<and> (startsWith aliasPath ''/'' \<and> \<not> startsWith rest ''/'' \<longrightarrow>
        path_resolve cwd aliasPath rest = normalizedAbsolute (aliasPath @ ''/'' @ rest))
   \<and> (startsWith rest ''/'' \<longrightarrow> path_resolve cwd aliasPath rest = normalizedAbsolute rest)"
proof (intro conjI impI)
  show "basePathOf cwd opts dirname sourcePath =
     (case find (\<lambda>(alias, aliasPath). startsWith sourcePath (alias @ ''/''))
             (objectEntries (aliases opts)) of
        None \<Rightarrow> path_resolve cwd dirname sourcePath
      | Some (alias, aliasPath) \<Rightarrow>
          path_resolve cwd aliasPath (drop (length alias + 1) sourcePath))"
    using assms by (rule basePathOf_find)
next
  assume "startsWith aliasPath ''/'' \<and> \<not> startsWith rest ''/''"
  then show "path_resolve cwd aliasPath rest = normalizedAbsolute (aliasPath @ ''/'' @ rest)"
    by (intro path_resolve_joined) simp_all
next
  assume "startsWith rest ''/''"
  then show "path_resolve cwd aliasPath rest = normalizedAbsolute rest"
    by (rule path_resolve_absolute_rest)
qed

text \<open>
  Two inputs at which the claim as first stated fails. The rest \<^verbatim>\<open>/demo\<close> of \<^verbatim>\<open>@code//demo\<close>
  is absolute, so the base path of the alias is dropped and not joined with it. And with
  the aliases \<^verbatim>\<open>{'1/x': '/A', '1': '/B'}\<close> the first declared alias that matches \<^verbatim>\<open>1/x/demo\<close>
  is \<^verbatim>\<open>1/x\<close>, while the scan meets the array index \<^verbatim>\<open>1\<close> first.
\<close>

theorem alias_scan_counterexample:
  "basePathOf ''/project'' (defaultOptions ''/project'') ''/docs'' ''@code//demo'' = ''/demo'' \<and>
   normalizedAbsolute (''/project/src/code-snippets'' @ ''/'' @ ''/demo'')
     = ''/project/src/code-snippets/demo'' \<and>
   find (\<lambda>(alias, aliasPath). startsWith ''1/x/demo'' (alias @ ''/''))
     (aliases (defaultOptions ''/project'') @ [(''1/x'', ''/A''), (''1'', ''/B'')])
     = Some (''1/x'', ''/A'') \<and>
   basePathOf ''/project''
     (mergedOptions ''/project''
        \<lparr>userAliases = Some [(''1/x'', ''/A''), (''1'', ''/B'')], userExtensions = None,
         userPrettierOptions = None\<rparr>)
     ''/docs'' ''1/x/demo'' = ''/B/x/demo''"
  by code_simp

theorem alias_scan_first_match_witness:
  "startsWith ''/work'' ''/'' \<and>
   basePathOf ''/work''
     \<lparr>aliases = [(''@co'', ''/a''), (''@code'', ''/project/src/code-snippets''), (''7'', ''/b'')],
      extensions = [''.ts''], prettierOptions = []\<rparr> ''/docs'' ''@code/demo''
     = ''/project/src/code-snippets/demo'' \<and>
   basePathOf ''/work''
     \<lparr>aliases = [(''@co'', ''/a''), (''@code'', ''/project/src/code-snippets''), (''7'', ''/b'')],
      extensions = [''.ts''], prettierOptions = []\<rparr> ''/docs'' ''x/@code/demo''
     = ''/docs/x/@code/demo'' \<and>
   path_resolve ''/work'' ''/project/src/code-snippets'' ''demo''
     = normalizedAbsolute (''/project/src/code-snippets'' @ ''/'' @ ''demo'') \<and>
   path_resolve ''/work'' ''/project/src/code-snippets'' ''/demo'' = normalizedAbsolute ''/demo''"
proof -
  let ?opts = "\<lparr>aliases = [(''@co'', ''/a''), (''@code'', ''/project/src/code-snippets''),
      (''7'', ''/b'')], extensions = [''.ts''], prettierOptions = []\<rparr>"
  have abs: "startsWith ''/work'' ''/''" by (simp add: startsWith_def)
  have entries: "objectEntries (aliases ?opts) =
      [(''7'', ''/b''), (''@co'', ''/a''), (''@code'', ''/project/src/code-snippets'')]"
    by code_simp
  have r1: "path_resolve ''/work'' ''/project/src/code-snippets'' ''demo''
      = ''/project/src/code-snippets/demo''" by code_simp
  have r2: "path_resolve ''/work'' ''/docs'' ''x/@code/demo'' = ''/docs/x/@code/demo''"
    by code_simp
  note inst1 = alias_scan_first_match [OF abs, where opts = ?opts and dirname = "''/docs''"
      and sourcePath = "''@code/demo''" and aliasPath = "''/project/src/code-snippets''"
      and rest = "''demo''"]
  note inst2 = alias_scan_first_match [OF abs, where opts = ?opts and dirname = "''/docs''"
      and sourcePath = "''x/@code/demo''" and aliasPath = "''/project/src/code-snippets''"
      and rest = "''/demo''"]
  have b1: "basePathOf ''/work'' ?opts ''/docs'' ''@code/demo''
      = ''/project/src/code-snippets/demo''"
    using inst1 [THEN conjunct1] by (simp only: entries) (simp add: r1 startsWith_def)
  have b2: "basePathOf ''/work'' ?opts ''/docs'' ''x/@code/demo'' = ''/docs/x/@code/demo''"
    using inst2 [THEN conjunct1] by (simp only: entries) (simp add: r2 startsWith_def)
  have j: "path_resolve ''/work'' ''/project/src/code-snippets'' ''demo''
     = normalizedAbsolute (''/project/src/code-snippets'' @ ''/'' @ ''demo'')"
    using inst1 [THEN conjunct2, THEN conjunct1] by (simp add: startsWith_def)
  have k: "path_resolve ''/work'' ''/project/src/code-snippets'' ''/demo''
     = normalizedAbsolute ''/demo''"
    using inst2 [THEN conjunct2, THEN conjunct2] by (simp add: startsWith_def)
  from abs b1 b2 j k show ?thesis by (intro conjI)
qed

text \<open>
  Claim C7, as amended. Let an alias be the first entry of the alias table, in the order
  of \<^verbatim>\<open>Object.entries\<close>, whose key followed by \<^verbatim>\<open>/\<close> is a prefix of the specifier. When its
  base path is absolute and the rest of the specifier after that prefix does not begin
  with a slash, resolving the specifier finds a file exactly when resolving the base path,
  a slash and the rest does, taken as a plain path relative to the directory of the
  document with no alias table, and it is the same file.
\<close>

theorem alias_roundtrip:
  assumes "startsWith aliasPath ''/''" and "\<not> startsWith rest ''/''"
    and "find (\<lambda>(a, p). startsWith (alias @ ''/'' @ rest) (a @ ''/''))
           (objectEntries (aliases opts)) = Some (alias, aliasPath)"
  shows "resolveModulePath cwd existsSync opts dirname (alias @ ''/'' @ rest) = Inr fullPath
     \<longleftrightarrow> resolveModulePath cwd existsSync (opts\<lparr>aliases := []\<rparr>) dirname
           (aliasPath @ ''/'' @ rest) = Inr fullPath"
proof -
  have "basePathOf cwd opts dirname (alias @ ''/'' @ rest) = path_resolve cwd aliasPath rest"
    using basePathOf_alias [OF disjI2 [OF assms(1)] assms(3), of cwd dirname] by simp
  also have "\<dots> = path_resolve cwd dirname (aliasPath @ ''/'' @ rest)"
    using assms(1,2) by (rule path_resolve_join)
  also have "\<dots> = basePathOf cwd (opts\<lparr>aliases := []\<rparr>) dirname (aliasPath @ ''/'' @ rest)"
    by (simp add: basePathOf_no_aliases)
  finally show ?thesis
    by (simp add: resolveModulePath_def Let_def split: option.splits)
qed

text \<open>
  The rest \<^verbatim>\<open>/demo\<close> of \<^verbatim>\<open>@code//demo\<close> is absolute, so \<^verbatim>\<open>path.resolve\<close> drops the base path of
  the alias, while the substituted specifier normalises to a path below it.
\<close>

theorem alias_roundtrip_counterexample:
  "resolveModulePath ''/project''
     (\<lambda>p. p = ''/demo.ts'' \<or> p = ''/project/src/code-snippets/demo.ts'')
     (defaultOptions ''/project'') ''/docs'' ''@code//demo'' = Inr ''/demo.ts'' \<and>
   resolveModulePath ''/project''
     (\<lambda>p. p = ''/demo.ts'' \<or> p = ''/project/src/code-snippets/demo.ts'')
     ((defaultOptions ''/project'')\<lparr>aliases := []\<rparr>) ''/docs''
     ''/project/src/code-snippets//demo'' = Inr ''/project/src/code-snippets/demo.ts''"
  by code_simp

theorem alias_roundtrip_witness:
  "resolveModulePath ''/project'' (\<lambda>p. p = ''/project/src/code-snippets/demo.ts'')
     (defaultOptions ''/project'') ''/docs'' ''@code/demo''
     = Inr ''/project/src/code-snippets/demo.ts'' \<and>
   resolveModulePath ''/project'' (\<lambda>p. p = ''/project/src/code-snippets/demo.ts'')
     ((defaultOptions ''/project'')\<lparr>aliases := []\<rparr>) ''/docs''
     ''/project/src/code-snippets/demo'' = Inr ''/project/src/code-snippets/demo.ts''"
proof -
  have al: "objectEntries (aliases (defaultOptions ''/project''))
      = [(''@code'', ''/project/src/code-snippets'')]"
    by code_simp
  have lhs: "resolveModulePath ''/project'' (\<lambda>p. p = ''/project/src/code-snippets/demo.ts'')
     (defaultOptions ''/project'') ''/docs'' ''@code/demo''
     = Inr ''/project/src/code-snippets/demo.ts''"
    by code_simp
  have "resolveModulePath ''/project'' (\<lambda>p. p = ''/project/src/code-snippets/demo.ts'')
     ((defaultOptions ''/project'')\<lparr>aliases := []\<rparr>) ''/docs''
     (''/project/src/code-snippets'' @ ''/'' @ ''demo'') = Inr ''/project/src/code-snippets/demo.ts''"
    using alias_roundtrip [of "''/project/src/code-snippets''" "''demo''" "''@code''"
        "defaultOptions ''/project''" "''/project''"
        "\<lambda>p. p = ''/project/src/code-snippets/demo.ts''" "''/docs''"
        "''/project/src/code-snippets/demo.ts''"] lhs
    by (simp add: al startsWith_def)
  with lhs show ?thesis by simp
qed

section \<open>Properties of the extraction\<close>

lemma declaratorStep_matchValue:
  "declaratorStep v found d = (case matchValue v d of None \<Rightarrow> found | Some c \<Rightarrow> Some c)"
  by (induction v found d rule: declaratorStep.induct) auto

lemma foldl_declaratorStep:
  "foldl (declaratorStep v) found ds =
     (if List.map_filter (matchValue v) ds = [] then found
      else Some (last (List.map_filter (matchValue v) ds)))"
proof (induction ds arbitrary: found)
  case Nil
  then show ?case by (simp add: map_filter_simps)
next
  case (Cons d ds)
  show ?case
  proof (cases "matchValue v d")
    case None
    then show ?thesis
      using Cons.IH [of found] by (simp add: declaratorStep_matchValue map_filter_simps)
  next
    case (Some c)
    then show ?thesis
      using Cons.IH [of "Some c"] by (simp add: declaratorStep_matchValue map_filter_simps)
  qed
qed

lemma variableVisitor_declaratorsOf:
  "variableVisitor v found s = foldl (declaratorStep v) found (declaratorsOf s)"
  by (cases s) auto

lemma foldl_variableVisitor:
  "foldl (variableVisitor v) found ss =
     foldl (declaratorStep v) found (concat (map declaratorsOf ss))"
  by (induction ss arbitrary: found) (auto simp: variableVisitor_declaratorsOf)

lemma foundCode_last_match:
  "foldl (variableVisitor v) None (walkProgram ast) =
     (if visitedMatches v ast = [] then None else Some (last (visitedMatches v ast)))"
  by (simp add: foldl_variableVisitor foldl_declaratorStep visitedMatches_def)

lemma extractCode_visitedMatches:
  "extractCode p v ast =
     (if visitedMatches v ast = [] then Inl (ExtractionError p v)
      else if last (visitedMatches v ast) = [] then Inl (ExtractionError p v)
      else Inr (last (visitedMatches v ast)))"
  by (simp add: extractCode_def foundCode_last_match)

text \<open>
  Claim C1, as amended. The extractor visits every variable declaration of the module,
  those nested in functions, blocks and expressions included, in the order of
  \<^verbatim>\<open>acornWalk.simple\<close>; when one or more declarators bind the target name to a template
  literal, the last one visited decides, and its joined literal value is returned when it
  is not empty.
\<close>

theorem extract_last_visited_match:
  assumes "visitedMatches varName sourceAST \<noteq> []"
    and "last (visitedMatches varName sourceAST) \<noteq> []"
  shows "extractCode absolutePath varName sourceAST = Inr (last (visitedMatches varName sourceAST))"
  using assms by (simp add: extractCode_visitedMatches)

text \<open>
  For \<^verbatim>\<open>var x = `outer`; function f() { var x = `inner`; }\<close> the only top-level match is
  \<^verbatim>\<open>outer\<close>, and the extractor returns \<^verbatim>\<open>inner\<close>.
\<close>

theorem extract_top_level_counterexample:
  "extractCode ''/src/demo.js'' ''x''
     [VariableDeclaration
        [VariableDeclarator (Identifier ''x'') (Some (TemplateLiteral [''outer''] []))],
      FunctionDeclaration
        [VariableDeclaration
           [VariableDeclarator (Identifier ''x'') (Some (TemplateLiteral [''inner''] []))]]]
     = Inr ''inner'' \<and>
   spec_topLevelMatches ''x''
     [VariableDeclaration
        [VariableDeclarator (Identifier ''x'') (Some (TemplateLiteral [''outer''] []))],
      FunctionDeclaration
        [VariableDeclaration
           [VariableDeclarator (Identifier ''x'') (Some (TemplateLiteral [''inner''] []))]]]
     = [''outer'']"
  by code_simp

theorem extract_last_visited_match_witness:
  "visitedMatches ''x''
     [VariableDeclaration
        [VariableDeclarator (Identifier ''x'') (Some (TemplateLiteral [''first''] [])),
         VariableDeclarator (Identifier ''y'') (Some (TemplateLiteral [''other''] []))],
      ExportNamedDeclaration (VariableDeclaration
        [VariableDeclarator (Identifier ''x'')
           (Some (TemplateLiteral [''sec'', ''ond''] [OtherExpression []]))]),
      FunctionDeclaration
        [VariableDeclaration
           [VariableDeclarator (Identifier ''x'') (Some (TemplateLiteral [''inner''] []))]]]
     = [''first'', ''second'', ''inner''] \<and>
   extractCode ''/src/demo.js'' ''x''
     [VariableDeclaration
        [VariableDeclarator (Identifier ''x'') (Some (TemplateLiteral [''first''] [])),
         VariableDeclarator (Identifier ''y'') (Some (TemplateLiteral [''other''] []))],
      ExportNamedDeclaration (VariableDeclaration
        [VariableDeclarator (Identifier ''x'')
           (Some (TemplateLiteral [''sec'', ''ond''] [OtherExpression []]))]),
      FunctionDeclaration
        [VariableDeclaration
           [VariableDeclarator (Identifier ''x'') (Some (TemplateLiteral [''inner''] []))]]]
     = Inr ''inner''"
proof -
  let ?ast = "[VariableDeclaration
        [VariableDeclarator (Identifier ''x'') (Some (TemplateLiteral [''first''] [])),
         VariableDeclarator (Identifier ''y'') (Some (TemplateLiteral [''other''] []))],
      ExportNamedDeclaration (VariableDeclaration
        [VariableDeclarator (Identifier ''x'')
           (Some (TemplateLiteral [''sec'', ''ond''] [OtherExpression []]))]),
      FunctionDeclaration
        [VariableDeclaration
           [VariableDeclarator (Identifier ''x'') (Some (TemplateLiteral [''inner''] []))]]]"
  have vm: "visitedMatches ''x'' ?ast = [''first'', ''second'', ''inner'']"
    by code_simp
  show ?thesis
    using extract_last_visited_match [of "''x''" ?ast "''/src/demo.js''"]
    by (simp add: vm)
qed

text \<open>
  Claim C5. For \<^verbatim>\<open>export const x = `${y}`;\<close> both quasis are empty, the joined value is the
  empty string, and line 135 takes it for a missing declaration: extraction fails.
\<close>

theorem interpolation_only_template_fails:
  "extractCode ''/src/demo.js'' ''x''
     [ExportNamedDeclaration (VariableDeclaration
        [VariableDeclarator (Identifier ''x'')
           (Some (TemplateLiteral ['''', ''''] [OtherExpression []]))])]
     = Inl (ExtractionError ''/src/demo.js'' ''x'')"
  by code_simp

lemma walkProgram_append: "walkProgram (xs @ ys) = walkProgram xs @ walkProgram ys"
  by (simp add: walkProgram_def)

lemma walkProgram_Cons: "walkProgram (s # ss) = walkStatement s @ walkProgram ss"
  by (simp add: walkProgram_def)

lemma concat_map_concat:
  "concat (map f (concat xss)) = concat (map (\<lambda>xs. concat (map f xs)) xss)"
  by (induction xss) auto

lemma walk_declarators:
  "concat (map declaratorsOf (walkStatement s)) = statementDeclarators s"
  "concat (map declaratorsOf (walkExpression e)) = expressionDeclarators e"
  "concat (map declaratorsOf (walkDeclarator d)) = nestedDeclarators d"
  by (induction s and e and d rule: walkStatement_walkExpression_walkDeclarator.induct)
     (simp_all add: concat_map_concat cong: map_cong)

lemma walkProgram_declarators:
  "concat (map declaratorsOf (walkProgram sourceAST)) = moduleDeclarators sourceAST"
  by (simp add: walkProgram_def moduleDeclarators_def concat_map_concat comp_def walk_declarators)

lemma map_filter_no_match:
  "\<forall>d \<in> set ds. matchValue varName d = None \<Longrightarrow> List.map_filter (matchValue varName) ds = []"
  by (induction ds) (simp_all add: map_filter_simps)

lemma map_filter_append_matches:
  "List.map_filter f (xs @ ys) = List.map_filter f xs @ List.map_filter f ys"
  by (simp add: map_filter_def)

lemma last_match_decides:
  assumes "moduleDeclarators sourceAST =
      earlier @ [VariableDeclarator (Identifier varName) (Some (TemplateLiteral quasis es))] @ later"
    and "\<forall>d \<in> set later. matchValue varName d = None"
    and "concat quasis \<noteq> []"
  shows "extractCode absolutePath varName sourceAST = Inr (concat quasis)"
proof -
  have "visitedMatches varName sourceAST =
      List.map_filter (matchValue varName) earlier @ [concat quasis]"
    using assms(1) map_filter_no_match [OF assms(2)]
    by (simp add: visitedMatches_def walkProgram_declarators map_filter_append_matches
          map_filter_simps)
  then show ?thesis
    using assms(3) by (simp add: extractCode_visitedMatches)
qed

text \<open>
  Claim C9, as amended. Extraction does not look at the \<^verbatim>\<open>export\<close> keyword. A module with
  a variable declaration among its statements and the same module with that declaration
  exported give the same result, the same value or the same error. And for a declarator
  of the module that binds the identifier to a template literal, at any depth and whether
  its declaration is exported or not: when no declarator that binds the identifier to a
  template literal comes after it in the order of \<^verbatim>\<open>acornWalk.simple\<close> (the declarators
  nested in the initialisers of a declaration before the declarators of that declaration,
  otherwise the order of the source) and the joined literal segments are not empty,
  extraction returns the joined literal segments.
\<close>

theorem export_keyword_not_required:
  "extractCode absolutePath varName (before @ [VariableDeclaration ds] @ after) =
   extractCode absolutePath varName
     (before @ [ExportNamedDeclaration (VariableDeclaration ds)] @ after)
   \<and> (moduleDeclarators sourceAST =
        earlier @ [VariableDeclarator (Identifier varName) (Some (TemplateLiteral quasis es))]
          @ later \<and>
      (\<forall>d \<in> set later. matchValue varName d = None) \<and> concat quasis \<noteq> [] \<longrightarrow>
      extractCode absolutePath varName sourceAST = Inr (concat quasis))"
proof (intro conjI impI)
  have "foldl (variableVisitor varName) None
          (walkProgram (before @ [VariableDeclaration ds] @ after)) =
        foldl (variableVisitor varName) None
          (walkProgram (before @ [ExportNamedDeclaration (VariableDeclaration ds)] @ after))"
    by (simp add: walkProgram_append walkProgram_Cons)
  then show "extractCode absolutePath varName (before @ [VariableDeclaration ds] @ after) =
     extractCode absolutePath varName
       (before @ [ExportNamedDeclaration (VariableDeclaration ds)] @ after)"
    by (simp add: extractCode_def)
next
  assume "moduleDeclarators sourceAST =
        earlier @ [VariableDeclarator (Identifier varName) (Some (TemplateLiteral quasis es))]
          @ later \<and>
      (\<forall>d \<in> set later. matchValue varName d = None) \<and> concat quasis \<noteq> []"
  then show "extractCode absolutePath varName sourceAST = Inr (concat quasis)"
    by (intro last_match_decides [of sourceAST earlier varName quasis es later]) simp_all
qed

text \<open>
  Two modules at which the claim as first stated fails; in neither is a declaration
  exported. For \<^verbatim>\<open>const x = `a`; { const x = `b`; }\<close> extraction returns \<^verbatim>\<open>b\<close>, not the
  literal value \<^verbatim>\<open>a\<close> of the first declarator. For \<^verbatim>\<open>const x = ``;\<close> the declarator is there
  and extraction fails.
\<close>

theorem export_keyword_counterexample:
  "extractCode ''/src/demo.js'' ''x''
     [VariableDeclaration
        [VariableDeclarator (Identifier ''x'') (Some (TemplateLiteral [''a''] []))],
      BlockStatement
        [VariableDeclaration
           [VariableDeclarator (Identifier ''x'') (Some (TemplateLiteral [''b''] []))]]]
     = Inr ''b'' \<and>
   matchValue ''x'' (VariableDeclarator (Identifier ''x'') (Some (TemplateLiteral [''a''] [])))
     = Some ''a'' \<and>
   extractCode ''/src/demo.js'' ''x''
     [VariableDeclaration
        [VariableDeclarator (Identifier ''x'') (Some (TemplateLiteral [[]] []))]]
     = Inl (ExtractionError ''/src/demo.js'' ''x'')"
  by code_simp

theorem export_keyword_not_required_witness:
  "extractCode ''/src/demo.js'' ''snippetA''
     [OtherStatement,
      VariableDeclaration
        [VariableDeclarator (Identifier ''snippetA'')
           (Some (TemplateLiteral [''const x = 1;''] []))]]
   = extractCode ''/src/demo.js'' ''snippetA''
     [OtherStatement,
      ExportNamedDeclaration (VariableDeclaration
        [VariableDeclarator (Identifier ''snippetA'')
           (Some (TemplateLiteral [''const x = 1;''] []))])]
   \<and> extractCode ''/src/demo.js'' ''snippetA''
        [ExportNamedDeclaration (VariableDeclaration
           [VariableDeclarator (Identifier ''snippetA'') (Some (TemplateLiteral [''one''] []))]),
         FunctionDeclaration
           [VariableDeclaration
              [VariableDeclarator (Identifier ''snippetA'')
                 (Some (TemplateLiteral [''const x = '', '';''] [OtherExpression []])),
               VariableDeclarator (Identifier ''other'') (Some (TemplateLiteral [''two''] []))]],
         OtherStatement]
      = Inr ''const x = ;''"
proof -
  let ?ast = "[ExportNamedDeclaration (VariableDeclaration
           [VariableDeclarator (Identifier ''snippetA'') (Some (TemplateLiteral [''one''] []))]),
         FunctionDeclaration
           [VariableDeclaration
              [VariableDeclarator (Identifier ''snippetA'')
                 (Some (TemplateLiteral [''const x = '', '';''] [OtherExpression []])),
               VariableDeclarator (Identifier ''other'') (Some (TemplateLiteral [''two''] []))]],
         OtherStatement]"
  note inst = export_keyword_not_required
    [of "''/src/demo.js''" "''snippetA''" "[OtherStatement]"
        "[VariableDeclarator (Identifier ''snippetA'')
            (Some (TemplateLiteral [''const x = 1;''] []))]" "[]" ?ast
        "[VariableDeclarator (Identifier ''snippetA'') (Some (TemplateLiteral [''one''] []))]"
        "[''const x = '', '';'']" "[OtherExpression []]"
        "[VariableDeclarator (Identifier ''other'') (Some (TemplateLiteral [''two''] []))]"]
  have same: "extractCode ''/src/demo.js'' ''snippetA''
     [OtherStatement,
      VariableDeclaration
        [VariableDeclarator (Identifier ''snippetA'')
           (Some (TemplateLiteral [''const x = 1;''] []))]]
   = extractCode ''/src/demo.js'' ''snippetA''
     [OtherStatement,
      ExportNamedDeclaration (VariableDeclaration
        [VariableDeclarator (Identifier ''snippetA'')
           (Some (TemplateLiteral [''const x = 1;''] []))])]"
    using inst [THEN conjunct1] by simp
  have decls: "moduleDeclarators ?ast =
      [VariableDeclarator (Identifier ''snippetA'') (Some (TemplateLiteral [''one''] []))]
      @ [VariableDeclarator (Identifier ''snippetA'')
           (Some (TemplateLiteral [''const x = '', '';''] [OtherExpression []]))]
      @ [VariableDeclarator (Identifier ''other'') (Some (TemplateLiteral [''two''] []))]"
    by (simp add: moduleDeclarators_def)
  have found: "extractCode ''/src/demo.js'' ''snippetA'' ?ast = Inr ''const x = ;''"
    using inst [THEN conjunct2, THEN mp] decls by simp
  from same found show ?thesis by (rule conjI)
qed

section \<open>Properties of the transformer\<close>

declare getParserForLang.simps [simp del]

lemma matchMarkerAt_startsWith: "matchMarkerAt s = Some v \<Longrightarrow> startsWith s ''code={''"
  by (auto simp: matchMarkerAt_def split: if_splits)

lemma matchMarker_includes: "matchMarker m = Some v \<Longrightarrow> includes_str m ''code={''"
proof (induction m)
  case Nil
  then show ?case by simp
next
  case (Cons c cs)
  show ?case
  proof (cases "matchMarkerAt (c # cs)")
    case None
    with Cons show ?thesis by simp
  next
    case (Some w)
    then have "startsWith (c # cs) ''code={''" by (rule matchMarkerAt_startsWith)
    then show ?thesis by simp
  qed
qed

lemma matchMarker_nonempty: "matchMarker m = Some v \<Longrightarrow> m \<noteq> []"
  by (cases m) auto

lemma visitCode_no_marker:
  "\<not> carriesMarker (Code nd) \<Longrightarrow> visitCode e opts dirname importMap nd = Inr (nd, None)"
  by (auto simp: carriesMarker_def visitCode_def split: option.splits)

lemma visitCode_marker:
  assumes "meta nd = Some m" and "matchMarker m = Some varName"
  shows "visitCode e opts dirname importMap nd =
     (case codeContentOf e opts dirname importMap varName of
        Inl err \<Rightarrow> Inl err
      | Inr codeContent \<Rightarrow>
          if lang nd = None \<or> lang nd = Some []
          then Inr (nd\<lparr>nodeValue := trim codeContent, meta := Some (trim (stripMarker m))\<rparr>, None)
          else Inr (nd\<lparr>meta := Some (trim (stripMarker m))\<rparr>, Some (codeContent, the (lang nd))))"
  using assms matchMarker_includes [OF assms(2)] matchMarker_nonempty [OF assms(2)]
  by (auto simp: visitCode_def split: sum.splits option.splits)

lemma codePass_no_marker:
  "\<forall>n \<in> set tree. \<not> carriesMarker n \<Longrightarrow>
     codePass e opts dirname importMap tree = Inr (map (\<lambda>n. (n, None)) tree)"
proof (induction tree)
  case Nil
  then show ?case by simp
next
  case (Cons n ns)
  then have ih: "codePass e opts dirname importMap ns = Inr (map (\<lambda>n. (n, None)) ns)"
    by simp
  show ?case
  proof (cases n)
    case (Code nd)
    with Cons.prems have "visitCode e opts dirname importMap nd = Inr (nd, None)"
      by (simp add: visitCode_no_marker)
    with Code ih show ?thesis by simp
  qed (simp_all add: ih)
qed

lemma formatPromise_no_task [simp]: "formatPromise e opts (n, None) = (n, [])"
  by (cases n) auto

lemma formatPromise_Code:
  "\<exists>nd'. fst (formatPromise e opts (Code nd, t)) = Code nd'"
proof (cases t)
  case None
  then show ?thesis by simp
next
  case (Some cl)
  obtain c l where "cl = (c, l)" by (cases cl)
  with Some show ?thesis by (auto split: sum.splits)
qed

lemma codePass_Code_Inr:
  assumes "codePass e opts dirname importMap (Code nd # ns) = Inr rs"
  shows "\<exists>nd' t rs'. visitCode e opts dirname importMap nd = Inr (nd', t) \<and>
     codePass e opts dirname importMap ns = Inr rs' \<and> rs = (Code nd', t) # rs'"
proof (cases "visitCode e opts dirname importMap nd")
  case (Inl err)
  with assms show ?thesis by simp
next
  case (Inr r)
  obtain nd' t where r: "r = (nd', t)" by (cases r)
  show ?thesis
  proof (cases "codePass e opts dirname importMap ns")
    case (Inl err)
    with Inr r assms show ?thesis by simp
  next
    case rs': (Inr rs')
    with Inr r assms have "rs = (Code nd', t) # rs'" by simp
    with Inr r rs' show ?thesis by simp
  qed
qed

lemma codePass_other_Inr:
  assumes "codePass e opts dirname importMap (n # ns) = Inr rs" and "\<forall>nd. n \<noteq> Code nd"
  shows "\<exists>rs'. codePass e opts dirname importMap ns = Inr rs' \<and> rs = (n, None) # rs'"
proof (cases "codePass e opts dirname importMap ns")
  case (Inl err)
  with assms show ?thesis by (cases n) auto
next
  case (Inr rs')
  with assms have "rs = (n, None) # rs'" by (cases n) auto
  with Inr show ?thesis by simp
qed

lemma importPass_after_transform:
  "codePass e opts dirname importMap tree = Inr rs \<Longrightarrow>
     importPass e m (map (\<lambda>r. fst (formatPromise e opts r)) rs) = importPass e m tree"
proof (induction tree arbitrary: rs m)
  case Nil
  then show ?case by simp
next
  case (Cons n ns)
  show ?case
  proof (cases n)
    case (MdxjsEsm v)
    then have "\<forall>nd. n \<noteq> Code nd" by simp
    from codePass_other_Inr [OF Cons.prems this]
    obtain rs' where rs': "codePass e opts dirname importMap ns = Inr rs'"
      "rs = (n, None) # rs'" by blast
    show ?thesis
    proof (cases "acornParse e v")
      case None
      with MdxjsEsm rs' show ?thesis by simp
    next
      case (Some ast)
      with MdxjsEsm rs' Cons.IH [OF rs'(1)] show ?thesis by simp
    qed
  next
    case (Code nd)
    from codePass_Code_Inr [OF Cons.prems [unfolded Code]]
    obtain nd' t rs' where rs':
      "codePass e opts dirname importMap ns = Inr rs'" "rs = (Code nd', t) # rs'"
      by blast
    obtain nd'' where "fst (formatPromise e opts (Code nd', t)) = Code nd''"
      using formatPromise_Code by blast
    with Code rs' Cons.IH [OF rs'(1)] show ?thesis by simp
  next
    case OtherNode
    then have "\<forall>nd. n \<noteq> Code nd" by simp
    from codePass_other_Inr [OF Cons.prems this]
    obtain rs' where rs': "codePass e opts dirname importMap ns = Inr rs'"
      "rs = (n, None) # rs'" by blast
    with OtherNode Cons.IH [OF rs'(1)] show ?thesis by simp
  qed
qed

lemma transformer_no_marker:
  assumes "\<forall>n \<in> set tree. \<not> carriesMarker n"
  shows "transformer e opts dirname tree =
     (case importPass e Map.empty tree of Inl err \<Rightarrow> Inl err | Inr importMap \<Rightarrow> Inr (tree, []))"
proof -
  have "map (\<lambda>r. fst (formatPromise e opts r)) (map (\<lambda>n. (n, None)) tree) = tree"
    by (induction tree) auto
  moreover have "concat (map (\<lambda>r. snd (formatPromise e opts r)) (map (\<lambda>n. (n, None)) tree)) = []"
    by (induction tree) auto
  ultimately show ?thesis
    using assms by (simp add: transformer_def codePass_no_marker split: sum.splits)
qed

text \<open>
  Claim C8. On a document in which no code node carries a reference marker the transformer
  changes nothing: if the import declarations parse, the result is the same tree and no
  diagnostic, and otherwise the parse error, with no node touched. Hence a second run on
  the result of a first run in which no marker is left gives that result again.
\<close>

theorem no_marker_no_change:
  "((\<forall>n \<in> set tree. \<not> carriesMarker n) \<longrightarrow>
      transformer e opts dirname tree =
        (case importPass e Map.empty tree of
           Inl err \<Rightarrow> Inl err
         | Inr importMap \<Rightarrow> Inr (tree, []))) \<and>
   (transformer e opts dirname tree = Inr (tree', diags) \<and>
      (\<forall>n \<in> set tree'. \<not> carriesMarker n) \<longrightarrow>
      transformer e opts dirname tree' = Inr (tree', []))"
proof (intro conjI impI)
  assume "\<forall>n \<in> set tree. \<not> carriesMarker n"
  then show "transformer e opts dirname tree =
        (case importPass e Map.empty tree of
           Inl err \<Rightarrow> Inl err
         | Inr importMap \<Rightarrow> Inr (tree, []))"
    by (rule transformer_no_marker)
next
  assume a: "transformer e opts dirname tree = Inr (tree', diags) \<and>
      (\<forall>n \<in> set tree'. \<not> carriesMarker n)"
  then obtain importMap rs where first:
    "importPass e Map.empty tree = Inr importMap"
    "codePass e opts dirname importMap tree = Inr rs"
    "tree' = map (\<lambda>r. fst (formatPromise e opts r)) rs"
    by (auto simp: transformer_def split: sum.splits)
  have "importPass e Map.empty tree' = Inr importMap"
    using importPass_after_transform [OF first(2), of Map.empty] first(1,3) by simp
  then show "transformer e opts dirname tree' = Inr (tree', [])"
    using a transformer_no_marker [of tree' e opts dirname] by simp
qed

lemma ex_import:
  "importPass (exampleEnv fmt) Map.empty exampleTree = Inr [''snippetA'' \<mapsto> ''@code/demo'']"
  by (simp add: exampleEnv_def exampleTree_def walkProgram_def setProperty_def)

lemma ex_resolve:
  "resolveModulePath ''/project'' (\<lambda>p. p = ''/project/src/code-snippets/demo.ts'')
     (defaultOptions ''/project'') ''/docs'' ''@code/demo''
     = Inr ''/project/src/code-snippets/demo.ts''"
  by code_simp

lemma ex_extract:
  "extractCode ''/project/src/code-snippets/demo.ts'' ''snippetA''
     [ExportNamedDeclaration (VariableDeclaration
        [VariableDeclarator (Identifier ''snippetA'')
           (Some (TemplateLiteral [''\<newline>const x = 1;\<newline>''] []))])]
   = Inr ''\<newline>const x = 1;\<newline>''"
  by (simp add: extractCode_def walkProgram_def)

lemma ex_distinct: "exampleModule \<noteq> exampleImport"
  by (simp add: exampleModule_def exampleImport_def)

lemma ex_content:
  "codeContentOf (exampleEnv fmt) (defaultOptions ''/project'') ''/docs''
     [''snippetA'' \<mapsto> ''@code/demo''] ''snippetA'' = Inr ''\<newline>const x = 1;\<newline>''"
  using ex_distinct
  by (simp add: codeContentOf_def exampleEnv_def ex_resolve ex_extract getProperty_def)

lemma ex_marker: "matchMarker ''ts code={snippetA}'' = Some ''snippetA''"
  by code_simp

lemma ex_strip: "trim (stripMarker ''ts code={snippetA}'') = ''ts''"
  by code_simp

lemma ex_trim: "trim ''\<newline>const x = 1;\<newline>'' = ''const x = 1;''"
  by code_simp

lemma ex_visit:
  "visitCode (exampleEnv fmt) (defaultOptions ''/project'') ''/docs''
     [''snippetA'' \<mapsto> ''@code/demo'']
     \<lparr>lang = Some ''ts'', meta = Some ''ts code={snippetA}'', nodeValue = []\<rparr> =
   Inr (\<lparr>lang = Some ''ts'', meta = Some ''ts'', nodeValue = []\<rparr>,
        Some (''\<newline>const x = 1;\<newline>'', ''ts''))"
  using visitCode_marker [of "\<lparr>lang = Some ''ts'', meta = Some ''ts code={snippetA}'',
      nodeValue = []\<rparr>" "''ts code={snippetA}''" "''snippetA''" "exampleEnv fmt"
      "defaultOptions ''/project''" "''/docs''" "[''snippetA'' \<mapsto> ''@code/demo'']"]
  by (simp add: ex_content ex_marker ex_strip del: matchMarker.simps stripMarker.simps)

lemma ex_codePass:
  "codePass (exampleEnv fmt) (defaultOptions ''/project'') ''/docs''
     [''snippetA'' \<mapsto> ''@code/demo''] exampleTree =
   Inr [(MdxjsEsm exampleImport, None), (OtherNode, None),
        (Code \<lparr>lang = Some ''ts'', meta = Some ''ts'', nodeValue = []\<rparr>,
         Some (''\<newline>const x = 1;\<newline>'', ''ts''))]"
  by (simp add: exampleTree_def ex_visit)

lemma ex_format: "prettierFormat (exampleEnv fmt) = fmt"
  by (simp add: exampleEnv_def)

lemma ex_transform_ok:
  "transformer (exampleEnv (\<lambda>t os. Inr (t @ ''\<newline>''))) (defaultOptions ''/project'') ''/docs''
     exampleTree =
   Inr ([MdxjsEsm exampleImport, OtherNode,
         Code \<lparr>lang = Some ''ts'', meta = Some ''ts'', nodeValue = ''const x = 1;\<newline>''\<rparr>], [])"
  by (simp add: transformer_def ex_import ex_codePass ex_trim ex_format)

theorem no_marker_no_change_witness:
  "transformer (exampleEnv (\<lambda>t os. Inr (t @ ''\<newline>''))) (defaultOptions ''/project'') ''/docs''
     exampleTree =
   Inr ([MdxjsEsm exampleImport, OtherNode,
         Code \<lparr>lang = Some ''ts'', meta = Some ''ts'', nodeValue = ''const x = 1;\<newline>''\<rparr>], [])
   \<and>
   transformer (exampleEnv (\<lambda>t os. Inr (t @ ''\<newline>''))) (defaultOptions ''/project'') ''/docs''
     [MdxjsEsm exampleImport, OtherNode,
      Code \<lparr>lang = Some ''ts'', meta = Some ''ts'', nodeValue = ''const x = 1;\<newline>''\<rparr>] =
   Inr ([MdxjsEsm exampleImport, OtherNode,
         Code \<lparr>lang = Some ''ts'', meta = Some ''ts'', nodeValue = ''const x = 1;\<newline>''\<rparr>], [])"
proof -
  let ?e = "exampleEnv (\<lambda>t os. Inr (t @ ''\<newline>''))"
  let ?tree' = "[MdxjsEsm exampleImport, OtherNode,
      Code \<lparr>lang = Some ''ts'', meta = Some ''ts'', nodeValue = ''const x = 1;\<newline>''\<rparr>]"
  have "matchMarker ''ts'' = None" by code_simp
  then have none: "\<forall>n \<in> set ?tree'. \<not> carriesMarker n"
    by (simp add: carriesMarker_def)
  have second: "transformer ?e (defaultOptions ''/project'') ''/docs'' ?tree' = Inr (?tree', [])"
    using no_marker_no_change [of exampleTree ?e "defaultOptions ''/project''" "''/docs''"
        ?tree' "[]"] ex_transform_ok none
    by blast
  with ex_transform_ok show ?thesis by simp
qed

lemma codePass_length:
  "codePass e opts dirname importMap tree = Inr rs \<Longrightarrow> length rs = length tree"
proof (induction tree arbitrary: rs)
  case Nil
  then show ?case by simp
next
  case (Cons n ns)
  show ?case
  proof (cases "\<exists>nd. n = Code nd")
    case True
    then obtain nd where n: "n = Code nd" by blast
    from codePass_Code_Inr [OF Cons.prems [unfolded n]] Cons.IH show ?thesis by auto
  next
    case False
    then have "\<forall>nd. n \<noteq> Code nd" by simp
    from codePass_other_Inr [OF Cons.prems this] Cons.IH show ?thesis by auto
  qed
qed

lemma codePass_nth_Code:
  "codePass e opts dirname importMap tree = Inr rs \<Longrightarrow> i < length tree \<Longrightarrow>
   tree ! i = Code nd0 \<Longrightarrow>
     \<exists>nd t. visitCode e opts dirname importMap nd0 = Inr (nd, t) \<and> rs ! i = (Code nd, t)"
proof (induction tree arbitrary: rs i)
  case Nil
  then show ?case by simp
next
  case (Cons n ns)
  show ?case
  proof (cases i)
    case 0
    with Cons.prems have n: "n = Code nd0" by simp
    from codePass_Code_Inr [OF Cons.prems(1) [unfolded n]] 0 show ?thesis by auto
  next
    case (Suc k)
    with Cons.prems have k: "k < length ns" "ns ! k = Code nd0" by simp_all
    have "\<exists>r rs'. codePass e opts dirname importMap ns = Inr rs' \<and> rs = r # rs'"
    proof (cases "\<exists>nd. n = Code nd")
      case True
      then obtain nd where n: "n = Code nd" by blast
      from codePass_Code_Inr [OF Cons.prems(1) [unfolded n]] show ?thesis by blast
    next
      case False
      then have "\<forall>nd. n \<noteq> Code nd" by simp
      from codePass_other_Inr [OF Cons.prems(1) this] show ?thesis by blast
    qed
    then obtain r rs' where rs': "codePass e opts dirname importMap ns = Inr rs'" "rs = r # rs'"
      by blast
    from Cons.IH [OF rs'(1) k] rs'(2) Suc show ?thesis by simp
  qed
qed

lemma codePass_all_ok:
  "(\<forall>nd. Code nd \<in> set tree \<longrightarrow> (\<exists>r. visitCode e opts dirname importMap nd = Inr r)) \<Longrightarrow>
     \<exists>rs. codePass e opts dirname importMap tree = Inr rs"
proof (induction tree)
  case Nil
  then show ?case by simp
next
  case (Cons n ns)
  then obtain rs where rs: "codePass e opts dirname importMap ns = Inr rs" by auto
  show ?case
  proof (cases n)
    case (Code nd)
    with Cons.prems obtain r where "visitCode e opts dirname importMap nd = Inr r" by auto
    with Code rs show ?thesis by (cases r) simp
  qed (simp_all add: rs)
qed

lemma codePass_first_failure:
  "i < length tree \<Longrightarrow> tree ! i = Code nd0 \<Longrightarrow>
   visitCode e opts dirname importMap nd0 = Inl err \<Longrightarrow>
   (\<forall>j < i. \<forall>nd. tree ! j = Code nd \<longrightarrow> (\<exists>r. visitCode e opts dirname importMap nd = Inr r)) \<Longrightarrow>
     codePass e opts dirname importMap tree = Inl err"
proof (induction tree arbitrary: i)
  case Nil
  then show ?case by simp
next
  case (Cons n ns)
  show ?case
  proof (cases i)
    case 0
    with Cons.prems show ?thesis by simp
  next
    case (Suc k)
    with Cons.prems have k: "k < length ns" "ns ! k = Code nd0" by simp_all
    have before: "\<forall>j < k. \<forall>nd. ns ! j = Code nd \<longrightarrow>
        (\<exists>r. visitCode e opts dirname importMap nd = Inr r)"
    proof (intro allI impI)
      fix j nd assume "j < k" "ns ! j = Code nd"
      then have "Suc j < i" "(n # ns) ! Suc j = Code nd" using Suc by simp_all
      with Cons.prems(4) show "\<exists>r. visitCode e opts dirname importMap nd = Inr r" by blast
    qed
    have rest: "codePass e opts dirname importMap ns = Inl err"
      using Cons.IH [OF k Cons.prems(3) before] .
    show ?thesis
    proof (cases n)
      case (Code nd)
      have "0 < i" "(n # ns) ! 0 = Code nd" using Suc Code by simp_all
      with Cons.prems(4) obtain r where "visitCode e opts dirname importMap nd = Inr r"
        by blast
      with Code rest show ?thesis by (cases r) simp
    qed (simp_all add: rest)
  qed
qed

lemma importPass_malformed:
  "MdxjsEsm v \<in> set tree \<Longrightarrow> acornParse e v = None \<Longrightarrow> importPass e m tree = Inl SyntaxError"
proof (induction tree arbitrary: m)
  case Nil
  then show ?case by simp
next
  case (Cons n ns)
  show ?case
  proof (cases n)
    case (MdxjsEsm w)
    show ?thesis
    proof (cases "acornParse e w")
      case None
      with MdxjsEsm show ?thesis by simp
    next
      case (Some ast)
      with Cons.prems MdxjsEsm have "MdxjsEsm v \<in> set ns" by auto
      with Cons.IH Cons.prems(2) Some MdxjsEsm show ?thesis by simp
    qed
  next
    case (Code nd)
    with Cons show ?thesis by simp
  next
    case OtherNode
    with Cons show ?thesis by simp
  qed
qed

lemma formatPromise_throw:
  "prettierFormat e (trim c) (formatOptions opts l) = Inl message \<Longrightarrow>
     formatPromise e opts (Code nd, Some (c, l)) =
       (Code (nd\<lparr>nodeValue := trim c\<rparr>), [FormatFailed message])"
  by (simp add: formatOptions_def)

lemma transformer_import_failure:
  "importPass e Map.empty tree = Inl err \<Longrightarrow> transformer e opts dirname tree = Inl err"
  by (simp add: transformer_def)

lemma transformer_block_failure:
  "importPass e Map.empty tree = Inr importMap \<Longrightarrow>
   codePass e opts dirname importMap tree = Inl err \<Longrightarrow>
     transformer e opts dirname tree = Inl err"
  by (simp add: transformer_def)

lemma transformer_recovers:
  assumes imp: "importPass e Map.empty tree = Inr importMap"
    and ok: "\<forall>nd. Code nd \<in> set tree \<longrightarrow> (\<exists>r. visitCode e opts dirname importMap nd = Inr r)"
    and i: "i < length tree" "tree ! i = Code nd0"
    and marker: "meta nd0 = Some m" "matchMarker m = Some varName"
    and content: "codeContentOf e opts dirname importMap varName = Inr codeContent"
    and l: "lang nd0 = Some l" "l \<noteq> []"
    and throw: "prettierFormat e (trim codeContent) (formatOptions opts l) = Inl message"
  shows "\<exists>tree' diags. transformer e opts dirname tree = Inr (tree', diags) \<and>
     tree' ! i = Code (nd0\<lparr>meta := Some (trim (stripMarker m)), nodeValue := trim codeContent\<rparr>) \<and>
     FormatFailed message \<in> set diags"
proof -
  from codePass_all_ok [OF ok] obtain rs where rs: "codePass e opts dirname importMap tree = Inr rs"
    by blast
  have len: "length rs = length tree"
    using rs by (rule codePass_length)
  have visit: "visitCode e opts dirname importMap nd0 =
      Inr (nd0\<lparr>meta := Some (trim (stripMarker m))\<rparr>, Some (codeContent, l))"
    using visitCode_marker [OF marker, of e opts dirname importMap] content l by simp
  from codePass_nth_Code [OF rs i] visit
  have nth: "rs ! i = (Code (nd0\<lparr>meta := Some (trim (stripMarker m))\<rparr>), Some (codeContent, l))"
    by auto
  have settled: "formatPromise e opts (rs ! i) =
      (Code (nd0\<lparr>meta := Some (trim (stripMarker m)), nodeValue := trim codeContent\<rparr>),
       [FormatFailed message])"
    unfolding nth using throw by (rule formatPromise_throw)
  let ?tree' = "map (\<lambda>r. fst (formatPromise e opts r)) rs"
  let ?diags = "concat (map (\<lambda>r. snd (formatPromise e opts r)) rs)"
  have t: "transformer e opts dirname tree = Inr (?tree', ?diags)"
    using imp rs by (simp add: transformer_def)
  have "?tree' ! i = fst (formatPromise e opts (rs ! i))"
    using i(1) len by simp
  with settled have n: "?tree' ! i =
      Code (nd0\<lparr>meta := Some (trim (stripMarker m)), nodeValue := trim codeContent\<rparr>)"
    by simp
  have "rs ! i \<in> set rs"
    using i(1) len by simp
  then have "set (snd (formatPromise e opts (rs ! i))) \<subseteq> set ?diags"
    by auto
  with settled have d: "FormatFailed message \<in> set ?diags"
    by simp
  from t n d show ?thesis by blast
qed

lemma transformer_aborts:
  assumes imp: "importPass e Map.empty tree = Inr importMap"
    and i: "i < length tree" "tree ! i = Code nd0"
    and marker: "meta nd0 = Some m" "matchMarker m = Some varName"
    and fail: "codeContentOf e opts dirname importMap varName = Inl err"
    and before: "\<forall>j < i. \<forall>nd. tree ! j = Code nd \<longrightarrow>
        (\<exists>r. visitCode e opts dirname importMap nd = Inr r)"
  shows "transformer e opts dirname tree = Inl err"
proof -
  have "visitCode e opts dirname importMap nd0 = Inl err"
    using visitCode_marker [OF marker, of e opts dirname importMap] fail by simp
  with i before have "codePass e opts dirname importMap tree = Inl err"
    by (intro codePass_first_failure)
  with imp show ?thesis by (rule transformer_block_failure)
qed

text \<open>
  Claim C4. A formatter that throws for a code block with a language does not abort the
  transformer: when no block fails otherwise, the transformer returns, the block holds the
  trimmed snippet and a warning is recorded. Every other failure aborts the transformer
  with its error: an import node that does not parse, and for the first code block that
  fails, whatever the error of its snippet lookup is. That error is the unresolved
  reference when the import table has no property of the name, own or inherited, or an
  empty specifier; the type error of \<^verbatim>\<open>sourcePath.startsWith\<close> when the name is only found
  on \<^verbatim>\<open>Object.prototype\<close>; the error of the resolver when the specifier does not resolve;
  and the error of the extraction when the module has no matching declaration.
\<close>

theorem formatting_is_the_only_recoverable_failure:
  "(importPass e Map.empty tree = Inr importMap \<and>
    (\<forall>nd. Code nd \<in> set tree \<longrightarrow> (\<exists>r. visitCode e opts dirname importMap nd = Inr r)) \<and>
    i < length tree \<and> tree ! i = Code nd0 \<and>
    meta nd0 = Some m \<and> matchMarker m = Some varName \<and>
    codeContentOf e opts dirname importMap varName = Inr codeContent \<and>
    lang nd0 = Some l \<and> l \<noteq> [] \<and>
    prettierFormat e (trim codeContent) (formatOptions opts l) = Inl message \<longrightarrow>
    (\<exists>tree' diags. transformer e opts dirname tree = Inr (tree', diags) \<and>
       tree' ! i =
         Code (nd0\<lparr>meta := Some (trim (stripMarker m)), nodeValue := trim codeContent\<rparr>) \<and>
       FormatFailed message \<in> set diags))
   \<and> (MdxjsEsm v \<in> set tree \<and> acornParse e v = None \<longrightarrow>
        transformer e opts dirname tree = Inl SyntaxError)
   \<and> (importPass e Map.empty tree = Inr importMap \<and>
        i < length tree \<and> tree ! i = Code nd0 \<and>
        meta nd0 = Some m \<and> matchMarker m = Some varName \<and>
        codeContentOf e opts dirname importMap varName = Inl err \<and>
        (\<forall>j < i. \<forall>nd. tree ! j = Code nd \<longrightarrow>
           (\<exists>r. visitCode e opts dirname importMap nd = Inr r)) \<longrightarrow>
        transformer e opts dirname tree = Inl err)
   \<and> (getProperty importMap varName = Undefined \<or>
        getProperty importMap varName = StringValue [] \<longrightarrow>
        codeContentOf e opts dirname importMap varName = Inl (UnresolvedReference varName))
   \<and> (getProperty importMap varName = InheritedValue \<longrightarrow>
        codeContentOf e opts dirname importMap varName = Inl TypeError)
   \<and> (getProperty importMap varName = StringValue importPath \<and> importPath \<noteq> [] \<and>
        resolveModulePath (processCwd e) (fsExistsSync e) opts dirname importPath = Inl err \<longrightarrow>
        codeContentOf e opts dirname importMap varName = Inl err)
   \<and> (getProperty importMap varName = StringValue importPath \<and> importPath \<noteq> [] \<and>
        resolveModulePath (processCwd e) (fsExistsSync e) opts dirname importPath
          = Inr absolutePath \<and>
        fsReadFileSync e absolutePath = Some sourceCode \<and>
        acornParse e sourceCode = Some sourceAST \<and>
        extractCode absolutePath varName sourceAST = Inl err \<longrightarrow>
        codeContentOf e opts dirname importMap varName = Inl err)"
proof (intro conjI impI)
  assume "importPass e Map.empty tree = Inr importMap \<and>
    (\<forall>nd. Code nd \<in> set tree \<longrightarrow> (\<exists>r. visitCode e opts dirname importMap nd = Inr r)) \<and>
    i < length tree \<and> tree ! i = Code nd0 \<and>
    meta nd0 = Some m \<and> matchMarker m = Some varName \<and>
    codeContentOf e opts dirname importMap varName = Inr codeContent \<and>
    lang nd0 = Some l \<and> l \<noteq> [] \<and>
    prettierFormat e (trim codeContent) (formatOptions opts l) = Inl message"
  then show "\<exists>tree' diags. transformer e opts dirname tree = Inr (tree', diags) \<and>
       tree' ! i =
         Code (nd0\<lparr>meta := Some (trim (stripMarker m)), nodeValue := trim codeContent\<rparr>) \<and>
       FormatFailed message \<in> set diags"
    by (intro transformer_recovers) blast+
next
  assume "MdxjsEsm v \<in> set tree \<and> acornParse e v = None"
  then have "importPass e Map.empty tree = Inl SyntaxError"
    by (intro importPass_malformed [of v]) blast+
  then show "transformer e opts dirname tree = Inl SyntaxError"
    by (rule transformer_import_failure)
next
  assume "importPass e Map.empty tree = Inr importMap \<and>
        i < length tree \<and> tree ! i = Code nd0 \<and>
        meta nd0 = Some m \<and> matchMarker m = Some varName \<and>
        codeContentOf e opts dirname importMap varName = Inl err \<and>
        (\<forall>j < i. \<forall>nd. tree ! j = Code nd \<longrightarrow>
           (\<exists>r. visitCode e opts dirname importMap nd = Inr r))"
  then show "transformer e opts dirname tree = Inl err"
    by (intro transformer_aborts [of e tree importMap i nd0 m varName]) blast+
next
  assume "getProperty importMap varName = Undefined \<or>
        getProperty importMap varName = StringValue []"
  then show "codeContentOf e opts dirname importMap varName = Inl (UnresolvedReference varName)"
    by (auto simp: codeContentOf_def)
next
  assume "getProperty importMap varName = InheritedValue"
  then show "codeContentOf e opts dirname importMap varName = Inl TypeError"
    by (simp add: codeContentOf_def)
next
  assume "getProperty importMap varName = StringValue importPath \<and> importPath \<noteq> [] \<and>
        resolveModulePath (processCwd e) (fsExistsSync e) opts dirname importPath = Inl err"
  then show "codeContentOf e opts dirname importMap varName = Inl err"
    by (simp add: codeContentOf_def)
next
  assume "getProperty importMap varName = StringValue importPath \<and> importPath \<noteq> [] \<and>
        resolveModulePath (processCwd e) (fsExistsSync e) opts dirname importPath
          = Inr absolutePath \<and>
        fsReadFileSync e absolutePath = Some sourceCode \<and>
        acornParse e sourceCode = Some sourceAST \<and>
        extractCode absolutePath varName sourceAST = Inl err"
  then show "codeContentOf e opts dirname importMap varName = Inl err"
    by (simp add: codeContentOf_def)
qed

theorem formatting_is_the_only_recoverable_failure_witness:
  "(\<exists>tree' diags.
      transformer (exampleEnv (\<lambda>t os. Inl ''Unexpected token'')) (defaultOptions ''/project'')
        ''/docs'' exampleTree = Inr (tree', diags) \<and>
      tree' ! 2 = Code \<lparr>lang = Some ''ts'', meta = Some ''ts'', nodeValue = ''const x = 1;''\<rparr> \<and>
      FormatFailed ''Unexpected token'' \<in> set diags) \<and>
   transformer (exampleEnv (\<lambda>t os. Inl ''Unexpected token'')) (defaultOptions ''/project'')
     ''/docs''
     [MdxjsEsm ''import {'',
      Code \<lparr>lang = Some ''ts'', meta = Some ''ts code={snippetA}'', nodeValue = []\<rparr>]
     = Inl SyntaxError \<and>
   transformer (exampleEnv (\<lambda>t os. Inl ''Unexpected token'')) (defaultOptions ''/project'')
     ''/docs''
     [MdxjsEsm exampleImport,
      Code \<lparr>lang = Some ''ts'', meta = Some ''ts code={snippetB}'', nodeValue = []\<rparr>]
     = Inl (UnresolvedReference ''snippetB'') \<and>
   transformer (exampleEnv (\<lambda>t os. Inl ''Unexpected token'')) (defaultOptions ''/project'')
     ''/docs''
     [MdxjsEsm exampleImport,
      Code \<lparr>lang = Some ''ts'', meta = Some ''ts code={toString}'', nodeValue = []\<rparr>]
     = Inl TypeError"
proof -
  let ?e = "exampleEnv (\<lambda>t os. Inl ''Unexpected token'')"
  let ?opts = "defaultOptions ''/project''"
  let ?im = "[''snippetA'' \<mapsto> ''@code/demo'']"
  let ?nd = "\<lparr>lang = Some ''ts'', meta = Some ''ts code={snippetA}'', nodeValue = []\<rparr>"
  let ?ndB = "\<lparr>lang = Some ''ts'', meta = Some ''ts code={snippetB}'', nodeValue = []\<rparr>"
  let ?ndD = "\<lparr>lang = Some ''ts'', meta = Some ''ts code={toString}'', nodeValue = []\<rparr>"
  note main = formatting_is_the_only_recoverable_failure
  have hypsA: "importPass ?e Map.empty exampleTree = Inr ?im \<and>
    (\<forall>nd. Code nd \<in> set exampleTree \<longrightarrow> (\<exists>r. visitCode ?e ?opts ''/docs'' ?im nd = Inr r)) \<and>
    2 < length exampleTree \<and> exampleTree ! 2 = Code ?nd \<and>
    meta ?nd = Some ''ts code={snippetA}'' \<and>
    matchMarker ''ts code={snippetA}'' = Some ''snippetA'' \<and>
    codeContentOf ?e ?opts ''/docs'' ?im ''snippetA'' = Inr ''\<newline>const x = 1;\<newline>'' \<and>
    lang ?nd = Some ''ts'' \<and> ''ts'' \<noteq> [] \<and>
    prettierFormat ?e (trim ''\<newline>const x = 1;\<newline>'') (formatOptions ?opts ''ts'')
      = Inl ''Unexpected token''"
    using ex_import [of "\<lambda>t os. Inl ''Unexpected token''"]
    by (simp add: ex_visit ex_marker ex_content ex_format exampleTree_def
          del: matchMarker.simps importPass.simps)
  have A: "\<exists>tree' diags.
      transformer ?e ?opts ''/docs'' exampleTree = Inr (tree', diags) \<and>
      tree' ! 2 = Code \<lparr>lang = Some ''ts'', meta = Some ''ts'', nodeValue = ''const x = 1;''\<rparr> \<and>
      FormatFailed ''Unexpected token'' \<in> set diags"
    using main
      [where e = ?e and tree = exampleTree and importMap = ?im and opts = ?opts
         and dirname = "''/docs''" and i = 2 and ?nd0.0 = ?nd and m = "''ts code={snippetA}''"
         and varName = "''snippetA''" and codeContent = "''\<newline>const x = 1;\<newline>''"
         and l = "''ts''" and message = "''Unexpected token''",
       THEN conjunct1, THEN mp, OF hypsA]
    by (simp add: ex_strip ex_trim del: stripMarker.simps)
  have hypsB: "MdxjsEsm ''import {'' \<in> set [MdxjsEsm ''import {'', Code ?nd] \<and>
      acornParse ?e ''import {'' = None"
    by (simp add: exampleEnv_def exampleImport_def exampleModule_def)
  have B: "transformer ?e ?opts ''/docs'' [MdxjsEsm ''import {'', Code ?nd] = Inl SyntaxError"
    using main
      [where e = ?e and tree = "[MdxjsEsm ''import {'', Code ?nd]" and v = "''import {''"
         and opts = ?opts and dirname = "''/docs''",
       THEN conjunct2, THEN conjunct1, THEN mp, OF hypsB] .
  have imp2: "\<And>nd. importPass ?e Map.empty [MdxjsEsm exampleImport, Code nd] = Inr ?im"
    by (simp add: exampleEnv_def walkProgram_def setProperty_def)
  have mB: "matchMarker ''ts code={snippetB}'' = Some ''snippetB''"
    by code_simp
  have gB: "getProperty ?im ''snippetB'' = Undefined \<or>
      getProperty ?im ''snippetB'' = StringValue []"
    by (simp add: getProperty_def objectPrototypeNames_def)
  have cB: "codeContentOf ?e ?opts ''/docs'' ?im ''snippetB''
      = Inl (UnresolvedReference ''snippetB'')"
    using main
      [where e = ?e and importMap = ?im and opts = ?opts and dirname = "''/docs''"
         and varName = "''snippetB''",
       THEN conjunct2, THEN conjunct2, THEN conjunct2, THEN conjunct1, THEN mp, OF gB] .
  have hypsC: "importPass ?e Map.empty [MdxjsEsm exampleImport, Code ?ndB] = Inr ?im \<and>
      1 < length [MdxjsEsm exampleImport, Code ?ndB] \<and>
      [MdxjsEsm exampleImport, Code ?ndB] ! 1 = Code ?ndB \<and>
      meta ?ndB = Some ''ts code={snippetB}'' \<and>
      matchMarker ''ts code={snippetB}'' = Some ''snippetB'' \<and>
      codeContentOf ?e ?opts ''/docs'' ?im ''snippetB'' = Inl (UnresolvedReference ''snippetB'') \<and>
      (\<forall>j < 1. \<forall>nd. [MdxjsEsm exampleImport, Code ?ndB] ! j = Code nd \<longrightarrow>
         (\<exists>r. visitCode ?e ?opts ''/docs'' ?im nd = Inr r))"
    using imp2 [of ?ndB] cB by (simp add: mB del: matchMarker.simps importPass.simps)
  have C: "transformer ?e ?opts ''/docs'' [MdxjsEsm exampleImport, Code ?ndB]
      = Inl (UnresolvedReference ''snippetB'')"
    using main
      [where e = ?e and tree = "[MdxjsEsm exampleImport, Code ?ndB]" and importMap = ?im
         and opts = ?opts and dirname = "''/docs''" and i = 1 and ?nd0.0 = ?ndB
         and m = "''ts code={snippetB}''" and varName = "''snippetB''"
         and err = "UnresolvedReference ''snippetB''",
       THEN conjunct2, THEN conjunct2, THEN conjunct1, THEN mp, OF hypsC] .
  have mD: "matchMarker ''ts code={toString}'' = Some ''toString''"
    by code_simp
  have gD: "getProperty ?im ''toString'' = InheritedValue"
    by (simp add: getProperty_def objectPrototypeNames_def)
  have cD: "codeContentOf ?e ?opts ''/docs'' ?im ''toString'' = Inl TypeError"
    using main
      [where e = ?e and importMap = ?im and opts = ?opts and dirname = "''/docs''"
         and varName = "''toString''",
       THEN conjunct2, THEN conjunct2, THEN conjunct2, THEN conjunct2, THEN conjunct1,
       THEN mp, OF gD] .
  have hypsD: "importPass ?e Map.empty [MdxjsEsm exampleImport, Code ?ndD] = Inr ?im \<and>
      1 < length [MdxjsEsm exampleImport, Code ?ndD] \<and>
      [MdxjsEsm exampleImport, Code ?ndD] ! 1 = Code ?ndD \<and>
      meta ?ndD = Some ''ts code={toString}'' \<and>
      matchMarker ''ts code={toString}'' = Some ''toString'' \<and>
      codeContentOf ?e ?opts ''/docs'' ?im ''toString'' = Inl TypeError \<and>
      (\<forall>j < 1. \<forall>nd. [MdxjsEsm exampleImport, Code ?ndD] ! j = Code nd \<longrightarrow>
         (\<exists>r. visitCode ?e ?opts ''/docs'' ?im nd = Inr r))"
    using imp2 [of ?ndD] cD by (simp add: mD del: matchMarker.simps importPass.simps)
  have D: "transformer ?e ?opts ''/docs'' [MdxjsEsm exampleImport, Code ?ndD] = Inl TypeError"
    using main
      [where e = ?e and tree = "[MdxjsEsm exampleImport, Code ?ndD]" and importMap = ?im
         and opts = ?opts and dirname = "''/docs''" and i = 1 and ?nd0.0 = ?ndD
         and m = "''ts code={toString}''" and varName = "''toString''"
         and err = "TypeError",
       THEN conjunct2, THEN conjunct2, THEN conjunct1, THEN mp, OF hypsD] .
  from A B C D show ?thesis by blast
qed

end
